theory Spec2Isabelle
  imports Complex_Main
begin

section \<open>The geoip client: data model\<close>

text \<open>
  The embedded code is the class \<open>GeoipClient\<close> of the geoip client module
  (\<open>lookup\<close>, \<open>matchRegion\<close>, \<open>matchNetwork\<close>, \<open>bestMatch\<close>, \<open>lookupWithCache\<close>).

  JavaScript strings are \<open>string\<close>; a string is truthy iff it is not empty.
  The \<open>asn\<close> is an \<open>int\<close> (truthy iff it is not \<open>0\<close>), \<open>latitude\<close> and \<open>longitude\<close>
  are \<open>real\<close>: the client only copies them (\<open>Number\<close> of a number is that number), and
  \<open>NaN\<close> is not represented. The optional \<open>state\<close> is a \<open>string option\<close>.
\<close>

datatype provider = ipmap | ip2location | ipinfo | maxmind | fastly

record location_info =
  continent :: string
  country :: string
  state :: "string option"
  city :: string
  normalizedCity :: string
  asn :: int
  latitude :: real
  longitude :: real
  network :: string
  normalizedNetwork :: string

text \<open>\<open>LocationInfoWithProvider = LocationInfo & {provider: Provider}\<close>.\<close>

record location_info_with_provider = location_info +
  provider :: provider

text \<open>\<open>ProbeLocation\<close>: \<open>LocationInfo\<close> is \<open>ProbeLocation\<close> without the two region fields.\<close>

record probe_location = location_info +
  region :: string
  normalizedRegion :: string

text \<open>\<open>RegionInfo\<close> and \<open>NetworkInfo\<close>; their fields carry a prefix, the names being taken
  by the fields of the records above.\<close>

record region_info =
  ri_region :: string
  ri_normalizedRegion :: string

record network_info =
  ni_network :: string
  ni_normalizedNetwork :: string
  ni_asn :: int

text \<open>The response of the ip2location provider: \<open>{location, isProxy}\<close>.\<close>

record ip2location_bundled_response =
  location :: location_info
  isProxy :: bool

text \<open>
  \<open>InternalError (message, expose)\<close> is the client's own error class; \<open>Error message\<close> is
  the generic JavaScript error (also what a provider or a cache backend rejects with).
  A settled promise is a value of \<open>error + 'a\<close>: \<open>Inl\<close> rejected, \<open>Inr\<close> fulfilled.
\<close>

datatype error = InternalError (message: string) (expose: bool) | Error (message: string)

type_synonym 'a settled = "error + 'a"

section \<open>Grouping, as \<open>Object.values (_.groupBy (filtered, field))\<close> does it\<close>

text \<open>
  \<open>_.groupBy\<close> fills a plain object: for each element in turn, the element is pushed to
  the array stored under its key, or the key is created with a one-element array.
  The object is the association list of its own properties in creation order.
\<close>

fun assignValue :: "string \<Rightarrow> 'a \<Rightarrow> (string \<times> 'a list) list \<Rightarrow> (string \<times> 'a list) list" where
  "assignValue k v [] = [(k, [v])]"
| "assignValue k v ((k', vs) # obj) =
     (if k' = k then (k', vs @ [v]) # obj else (k', vs) # assignValue k v obj)"

definition groupBy :: "('a \<Rightarrow> string) \<Rightarrow> 'a list \<Rightarrow> (string \<times> 'a list) list" where
  "groupBy iteratee collection = foldl (\<lambda>result v. assignValue (iteratee v) v result) [] collection"

text \<open>
  \<open>Object.values\<close> lists the own properties in the order of \<open>OrdinaryOwnPropertyKeys\<close>:
  first the keys that are array indices (the canonical decimal form of an integer from
  \<open>0\<close> to \<open>2^32 - 2\<close>) in ascending numeric order, then the other string keys in creation
  order.
\<close>

definition isDigit :: "char \<Rightarrow> bool" where
  "isDigit c = (48 \<le> (of_char c :: int) \<and> (of_char c :: int) \<le> 57)"

definition indexValue :: "string \<Rightarrow> int" where
  "indexValue s = foldl (\<lambda>n c. 10 * n + (of_char c - 48)) 0 s"

definition isArrayIndex :: "string \<Rightarrow> bool" where
  "isArrayIndex s =
     (s \<noteq> [] \<and> list_all isDigit s \<and> (s = ''0'' \<or> hd s \<noteq> CHR ''0'') \<and> length s \<le> 10
       \<and> indexValue s \<le> 4294967294)"

definition Object_values :: "(string \<times> 'v) list \<Rightarrow> 'v list" where
  "Object_values obj =
     map snd (sort_key (\<lambda>p. indexValue (fst p)) (filter (\<lambda>p. isArrayIndex (fst p)) obj)
              @ filter (\<lambda>p. \<not> isArrayIndex (fst p)) obj)"

section \<open>\<open>bestMatch\<close>, \<open>matchNetwork\<close>, \<open>matchRegion\<close>\<close>

text \<open>
  \<open>grouped.sort ((a, b) => b.length - a.length)\<close>: \<open>Array.prototype.sort\<close> is stable, and so
  is \<open>sort_key\<close> (insertion sort); the key \<open>- length\<close> sorts by descending length.
\<close>

definition sortByLengthDesc :: "'a list list \<Rightarrow> 'a list list" where
  "sortByLengthDesc grouped = sort_key (\<lambda>g. - int (length g)) grouped"

text \<open>The first three statements of \<open>bestMatch\<close>: filter, group, sort, flatten.\<close>

definition ranked_sources ::
  "(location_info_with_provider \<Rightarrow> string) \<Rightarrow> location_info_with_provider list
     \<Rightarrow> location_info_with_provider list" where
  "ranked_sources field sources =
     (let filtered = filter (\<lambda>s. field s \<noteq> []) sources;
          grouped = Object_values (groupBy field filtered)
      in concat (sortByLengthDesc grouped))"

definition bestMatch_message :: "string \<Rightarrow> string" where
  "bestMatch_message fieldName =
     ''failed to find a correct value for a field '' @ [CHR 0x22] @ fieldName @ [CHR 0x22]"

text \<open>
  \<open>bestMatch (field, sources)\<close>. The \<open>field\<close> is a key of \<open>LocationInfo\<close>: here its name
  (for the message) and its selector; the only call passes \<open>normalizedCity\<close>.
  \<open>_.omit (best, 'provider')\<close> is the truncation of the record. The call of
  \<open>logger.error\<close> before the \<open>throw\<close> does not change what is thrown.
\<close>

definition bestMatch ::
  "string \<Rightarrow> (location_info_with_provider \<Rightarrow> string) \<Rightarrow> location_info_with_provider list
     \<Rightarrow> error + (location_info \<times> location_info_with_provider list)" where
  "bestMatch fieldName field sources =
     (let ranked = ranked_sources field sources
      in case ranked of
           [] \<Rightarrow> Inl (Error (bestMatch_message fieldName))
         | best # _ \<Rightarrow>
             if provider best = fastly then Inl (Error (bestMatch_message fieldName))
             else Inr (location_info.truncate best, ranked))"

text \<open>\<open>matchNetwork (best, rankedSources)\<close>; \<open>None\<close> is \<open>undefined\<close>.\<close>

fun matchNetwork_scan :: "location_info \<Rightarrow> location_info_with_provider list \<Rightarrow> network_info option" where
  "matchNetwork_scan best [] = None"
| "matchNetwork_scan best (source # rankedSources) =
     (if normalizedCity source = normalizedCity best \<and> asn source \<noteq> 0 \<and> network source \<noteq> []
      then Some \<lparr>ni_network = network source, ni_normalizedNetwork = normalizedNetwork source,
                 ni_asn = asn source\<rparr>
      else matchNetwork_scan best rankedSources)"

definition matchNetwork :: "location_info \<Rightarrow> location_info_with_provider list \<Rightarrow> network_info option" where
  "matchNetwork best rankedSources =
     (if asn best \<noteq> 0 \<and> network best \<noteq> []
      then Some \<lparr>ni_network = network best, ni_normalizedNetwork = normalizedNetwork best,
                 ni_asn = asn best\<rparr>
      else matchNetwork_scan best rankedSources)"

text \<open>
  \<open>matchRegion (best)\<close>. \<open>getRegionByCountry\<close> and \<open>normalizeRegionName\<close> are imported from
  modules outside this development: they are parameters.
\<close>

definition matchRegion :: "(string \<Rightarrow> string) \<Rightarrow> (string \<Rightarrow> string) \<Rightarrow> location_info \<Rightarrow> region_info" where
  "matchRegion getRegionByCountry normalizeRegionName best =
     (let region = getRegionByCountry (country best)
      in \<lparr>ri_region = region, ri_normalizedRegion = normalizeRegionName region\<rparr>)"

section \<open>\<open>lookup\<close>, after the five queries have settled\<close>

definition withProvider :: "provider \<Rightarrow> location_info \<Rightarrow> location_info_with_provider" where
  "withProvider p l = location_info.extend l (location_info_with_provider.fields p)"

text \<open>The array \<open>fulfilled\<close>: one entry per provider, in descending priority, \<open>None\<close> for \<open>null\<close>.\<close>

definition fulfilled ::
  "ip2location_bundled_response settled \<Rightarrow> location_info settled \<Rightarrow> location_info settled
     \<Rightarrow> location_info settled \<Rightarrow> location_info settled
     \<Rightarrow> location_info_with_provider option list" where
  "fulfilled r_ip2location r_ipmap r_maxmind r_ipinfo r_fastly =
     [ case r_ip2location of Inr v \<Rightarrow> Some (withProvider ip2location (location v)) | Inl _ \<Rightarrow> None,
       case r_ipmap of Inr v \<Rightarrow> Some (withProvider ipmap v) | Inl _ \<Rightarrow> None,
       case r_maxmind of Inr v \<Rightarrow> Some (withProvider maxmind v) | Inl _ \<Rightarrow> None,
       case r_ipinfo of Inr v \<Rightarrow> Some (withProvider ipinfo v) | Inl _ \<Rightarrow> None,
       case r_fastly of Inr v \<Rightarrow> Some (withProvider fastly v) | Inl _ \<Rightarrow> None ]"

definition unresolvable :: "string \<Rightarrow> error" where
  "unresolvable addr = InternalError (''unresolvable geoip: '' @ addr) True"

text \<open>
  The callback of \<open>.then\<close>: the VPN gate, then \<open>fulfilled.filter (Boolean).flat ()\<close>.
  \<open>isAddrWhitelisted\<close> is imported from the whitelist module: a parameter.
\<close>

definition settled_results ::
  "(string \<Rightarrow> bool) \<Rightarrow> string
     \<Rightarrow> ip2location_bundled_response settled \<Rightarrow> location_info settled \<Rightarrow> location_info settled
     \<Rightarrow> location_info settled \<Rightarrow> location_info settled
     \<Rightarrow> error + location_info_with_provider list" where
  "settled_results isAddrWhitelisted addr r_ip2location r_ipmap r_maxmind r_ipinfo r_fastly =
     (if (case r_ip2location of Inr v \<Rightarrow> isProxy v | Inl _ \<Rightarrow> False) \<and> \<not> isAddrWhitelisted addr
      then Inl (InternalError ''vpn detected'' True)
      else Inr (List.map_filter id (fulfilled r_ip2location r_ipmap r_maxmind r_ipinfo r_fastly)))"

text \<open>The rest of \<open>lookup\<close>, from \<open>resultsWithCities\<close> to the returned object.\<close>

definition resolve ::
  "(string \<Rightarrow> string) \<Rightarrow> (string \<Rightarrow> string) \<Rightarrow> string \<Rightarrow> location_info_with_provider list
     \<Rightarrow> error + probe_location" where
  "resolve getRegionByCountry normalizeRegionName addr results =
     (let resultsWithCities = filter (\<lambda>s. city s \<noteq> []) results
      in if length resultsWithCities = 0
            \<or> (length resultsWithCities = 1 \<and> provider (hd resultsWithCities) = fastly)
         then Inl (unresolvable addr)
         else case bestMatch ''normalizedCity'' normalizedCity results of
                Inl e \<Rightarrow> Inl e
              | Inr (match, ranked) \<Rightarrow>
                  (case matchNetwork match ranked of
                     None \<Rightarrow> Inl (unresolvable addr)
                   | Some networkMatch \<Rightarrow>
                       let region = matchRegion getRegionByCountry normalizeRegionName match
                       in Inr \<lparr> continent = continent match,
                                country = country match,
                                state = state match,
                                city = city match,
                                normalizedCity = normalizedCity match,
                                asn = ni_asn networkMatch,
                                latitude = latitude match,
                                longitude = longitude match,
                                network = ni_network networkMatch,
                                normalizedNetwork = ni_normalizedNetwork networkMatch,
                                region = ri_region region,
                                normalizedRegion = ri_normalizedRegion region \<rparr>))"

definition lookup_settled ::
  "(string \<Rightarrow> bool) \<Rightarrow> (string \<Rightarrow> string) \<Rightarrow> (string \<Rightarrow> string) \<Rightarrow> string
     \<Rightarrow> ip2location_bundled_response settled \<Rightarrow> location_info settled \<Rightarrow> location_info settled
     \<Rightarrow> location_info settled \<Rightarrow> location_info settled
     \<Rightarrow> error + probe_location" where
  "lookup_settled isAddrWhitelisted getRegionByCountry normalizeRegionName addr
       r_ip2location r_ipmap r_maxmind r_ipinfo r_fastly =
     (case settled_results isAddrWhitelisted addr r_ip2location r_ipmap r_maxmind r_ipinfo r_fastly of
        Inl e \<Rightarrow> Inl e
      | Inr results \<Rightarrow> resolve getRegionByCountry normalizeRegionName addr results)"

section \<open>The cache-aside wrapper \<open>lookupWithCache\<close>\<close>

text \<open>
  The cache backend is behind \<open>CacheInterface\<close>: \<open>get\<close> and \<open>set\<close> return promises, which
  fulfil or reject, and may change the backend's state \<open>'c\<close>. \<open>get\<close> fulfils with a value
  or with \<open>undefined\<close> (\<open>None\<close>).
\<close>

record ('c, 't) cache_interface =
  cache_get :: "string \<Rightarrow> 'c \<Rightarrow> (error + 't option) \<times> 'c"
  cache_set :: "string \<Rightarrow> 't \<Rightarrow> int \<Rightarrow> 'c \<Rightarrow> (error + unit) \<times> 'c"

text \<open>
  What a call does besides returning: the backend's new state, and the trace of the calls
  of \<open>fn\<close>, \<open>logger.error\<close> and \<open>newrelic.noticeError\<close> (with the \<open>ttl\<close> when it is passed).
  \<open>FnCalled\<close> carries the key of the wrapped query, to tell the five queries of \<open>lookup\<close>
  apart.
\<close>

datatype event =
  FnCalled string
| LoggerError string error
| NoticeError error string "int option"

record 'c world =
  backend :: 'c
  trace :: "event list"

text \<open>
  The values of a type \<open>T\<close> that is not an object type, for the test \<open>if (cached)\<close>:
  \<open>ToBoolean\<close> is JavaScript's conversion to a boolean.
\<close>

datatype 'a jsval = JUndefined | JNull | JBoolean bool | JNumber int | JString string | JObject 'a

fun ToBoolean :: "'a jsval \<Rightarrow> bool" where
  "ToBoolean JUndefined = False"
| "ToBoolean JNull = False"
| "ToBoolean (JBoolean b) = b"
| "ToBoolean (JNumber n) = (n \<noteq> 0)"
| "ToBoolean (JString s) = (s \<noteq> [])"
| "ToBoolean (JObject _) = True"

text \<open>
  \<open>lookupWithCache<T> (key, fn)\<close>. \<open>truthy\<close> is \<open>ToBoolean\<close> on the values of \<open>T\<close>; \<open>fn\<close> is
  given by what the promise of \<open>fn ()\<close> settles to; \<open>ttl\<close> is \<open>Number (config.get
  ('geoip.cache.ttl'))\<close>. The part after \<open>if (cached)\<close> comes first.
\<close>

definition lookupWithCache_compute ::
  "('c, 't) cache_interface \<Rightarrow> int \<Rightarrow> string \<Rightarrow> 't settled \<Rightarrow> 'c world \<Rightarrow> 't settled \<times> 'c world" where
  "lookupWithCache_compute cache ttl key fn w =
     (let called = trace w @ [FnCalled key]
      in case fn of
           Inl e \<Rightarrow> (Inl e, w\<lparr>trace := called\<rparr>)
         | Inr info \<Rightarrow>
             (case cache_set cache key info ttl (backend w) of
                (Inr _, c) \<Rightarrow> (Inr info, \<lparr>backend = c, trace = called\<rparr>)
              | (Inl error, c) \<Rightarrow>
                  (Inr info,
                   \<lparr>backend = c,
                    trace = called @ [LoggerError ''Failed to cache geoip info for probe.'' error,
                                      NoticeError error key (Some ttl)]\<rparr>)))"

definition lookupWithCache ::
  "('t \<Rightarrow> bool) \<Rightarrow> ('c, 't) cache_interface \<Rightarrow> int \<Rightarrow> string \<Rightarrow> 't settled \<Rightarrow> 'c world
     \<Rightarrow> 't settled \<times> 'c world" where
  "lookupWithCache truthy cache ttl key fn w =
     (case cache_get cache key (backend w) of
        (Inl error, c) \<Rightarrow>
          lookupWithCache_compute cache ttl key fn
            \<lparr>backend = c,
             trace = trace w @ [LoggerError ''Failed to get cached geoip info for probe.'' error,
                                NoticeError error key None]\<rparr>
      | (Inr None, c) \<Rightarrow> lookupWithCache_compute cache ttl key fn (w\<lparr>backend := c\<rparr>)
      | (Inr (Some cached), c) \<Rightarrow>
          if truthy cached then (Inr cached, w\<lparr>backend := c\<rparr>)
          else lookupWithCache_compute cache ttl key fn (w\<lparr>backend := c\<rparr>))"

section \<open>\<open>lookup\<close>\<close>

text \<open>
  The five providers are imported functions that query a remote service: each is given
  by what its promise settles to for an address.
\<close>

record providers =
  ip2LocationLookup :: "string \<Rightarrow> ip2location_bundled_response settled"
  ipmapLookup :: "string \<Rightarrow> location_info settled"
  maxmindLookup :: "string \<Rightarrow> location_info settled"
  ipinfoLookup :: "string \<Rightarrow> location_info settled"
  fastlyLookup :: "string \<Rightarrow> location_info settled"

text \<open>
  \<open>lookup (addr)\<close>. The one cache object is used at two types, \<open>get<Ip2LocationBundledResponse>\<close>
  and \<open>get<LocationInfo>\<close>: \<open>cacheB\<close> and \<open>cacheL\<close> are these two views of it, on the same
  backend state. The cached values are objects, which are truthy. \<open>Promise.allSettled\<close>
  waits for the five queries, which the event loop interleaves; here they run one after
  the other in the order of the array.
\<close>

definition lookup ::
  "(string \<Rightarrow> bool) \<Rightarrow> (string \<Rightarrow> string) \<Rightarrow> (string \<Rightarrow> string)
     \<Rightarrow> ('c, ip2location_bundled_response) cache_interface \<Rightarrow> ('c, location_info) cache_interface
     \<Rightarrow> int \<Rightarrow> providers \<Rightarrow> string \<Rightarrow> 'c world \<Rightarrow> (error + probe_location) \<times> 'c world" where
  "lookup isAddrWhitelisted getRegionByCountry normalizeRegionName cacheB cacheL ttl ps addr w =
     (case lookupWithCache (\<lambda>_. True) cacheB ttl (''geoip:ip2location:'' @ addr)
             (ip2LocationLookup ps addr) w of (r_ip2location, w1) \<Rightarrow>
      case lookupWithCache (\<lambda>_. True) cacheL ttl (''geoip:ipmap:'' @ addr)
             (ipmapLookup ps addr) w1 of (r_ipmap, w2) \<Rightarrow>
      case lookupWithCache (\<lambda>_. True) cacheL ttl (''geoip:maxmind:'' @ addr)
             (maxmindLookup ps addr) w2 of (r_maxmind, w3) \<Rightarrow>
      case lookupWithCache (\<lambda>_. True) cacheL ttl (''geoip:ipinfo:'' @ addr)
             (ipinfoLookup ps addr) w3 of (r_ipinfo, w4) \<Rightarrow>
      case lookupWithCache (\<lambda>_. True) cacheL ttl (''geoip:fastly:'' @ addr)
             (fastlyLookup ps addr) w4 of (r_fastly, w5) \<Rightarrow>
        (lookup_settled isAddrWhitelisted getRegionByCountry normalizeRegionName addr
           r_ip2location r_ipmap r_maxmind r_ipinfo r_fastly, w5))"

section \<open>Backends and inputs for the examples\<close>

text \<open>\<open>BrokenCache\<close> of the unit tests: every operation rejects.\<close>

definition BrokenCache :: "('c, 't) cache_interface" where
  "BrokenCache =
     \<lparr>cache_get = (\<lambda>key c. (Inl (Error ''get is broken''), c)),
      cache_set = (\<lambda>key v ttl c. (Inl (Error ''set is broken''), c))\<rparr>"

text \<open>An in-memory backend: a map from keys to values; the \<open>ttl\<close> is ignored.\<close>

definition MemoryCache :: "(string \<rightharpoonup> 't, 't) cache_interface" where
  "MemoryCache =
     \<lparr>cache_get = (\<lambda>key c. (Inr (c key), c)),
      cache_set = (\<lambda>key v ttl c. (Inr (), c(key \<mapsto> v)))\<rparr>"

section \<open>Notions used in the statements\<close>

text \<open>The distinct keys of a list in the order of their first occurrence.\<close>

definition first_seen :: "'k list \<Rightarrow> 'k list" where
  "first_seen ks = rev (remdups (rev ks))"

text \<open>
  Cache backends whose every operation rejects, and cache backends whose \<open>get\<close> never
  yields a value: it fulfils with \<open>undefined\<close> or rejects.
\<close>

definition always_rejects :: "('c, 't) cache_interface \<Rightarrow> bool" where
  "always_rejects cache =
     ((\<forall>key c. isl (fst (cache_get cache key c)))
      \<and> (\<forall>key v ttl c. isl (fst (cache_set cache key v ttl c))))"

definition never_hits :: "('c, 't) cache_interface \<Rightarrow> bool" where
  "never_hits cache =
     (\<forall>key c. isl (fst (cache_get cache key c)) \<or> fst (cache_get cache key c) = Inr None)"

text \<open>The providers that answer as given, whatever the address.\<close>

definition example_providers ::
  "ip2location_bundled_response settled \<Rightarrow> location_info settled \<Rightarrow> location_info settled
     \<Rightarrow> location_info settled \<Rightarrow> location_info settled \<Rightarrow> providers" where
  "example_providers rA rB rC rD rE =
     \<lparr>ip2LocationLookup = (\<lambda>addr. rA), ipmapLookup = (\<lambda>addr. rB), maxmindLookup = (\<lambda>addr. rC),
      ipinfoLookup = (\<lambda>addr. rD), fastlyLookup = (\<lambda>addr. rE)\<rparr>"

text \<open>
  Inputs for the examples: answers of providers with the fields that matter for the vote
  and the network repair (the \<open>asn\<close> and the network name are given), a region table, an
  allowlist holding one address, a provider that fails.
\<close>

definition example_location ::
  "string \<Rightarrow> string option \<Rightarrow> string \<Rightarrow> string \<Rightarrow> int \<Rightarrow> string \<Rightarrow> location_info" where
  "example_location co st ci nci a n =
     \<lparr>continent = ''XX'', country = co, state = st, city = ci, normalizedCity = nci,
      asn = a, latitude = 1, longitude = 2, network = n, normalizedNetwork = n\<rparr>"

definition dallas :: "int \<Rightarrow> string \<Rightarrow> location_info" where
  "dallas a n = example_location ''US'' (Some ''TX'') ''Dallas'' ''dallas'' a n"

definition newYork :: "int \<Rightarrow> string \<Rightarrow> location_info" where
  "newYork a n = example_location ''US'' (Some ''NY'') ''New York'' ''new york'' a n"

definition buenosAires :: "int \<Rightarrow> string \<Rightarrow> location_info" where
  "buenosAires a n = example_location ''AR'' None ''Buenos Aires'' ''buenos aires'' a n"

definition example_region :: "string \<Rightarrow> string" where
  "example_region co = ''Region of '' @ co"

definition example_normalize :: "string \<Rightarrow> string" where
  "example_normalize r = ''normalized '' @ r"

definition example_allowlist :: "string \<Rightarrow> bool" where
  "example_allowlist addr = (addr = ''5.134.119.43'')"

definition failed :: "'a settled" where
  "failed = Inl (Error ''Response code 400 (Bad Request)'')"

text \<open>A backend that stores nothing: \<open>get\<close> fulfils with \<open>undefined\<close>, \<open>set\<close> fulfils.\<close>

definition NullCache :: "('c, 't) cache_interface" where
  "NullCache =
     \<lparr>cache_get = (\<lambda>key c. (Inr None, c)),
      cache_set = (\<lambda>key v ttl c. (Inr (), c))\<rparr>"

section \<open>Adding the provider to a record\<close>

lemma withProvider_simps [simp]:
  "provider (withProvider p l) = p"
  "location_info.truncate (withProvider p l) = l"
  "continent (withProvider p l) = continent l"
  "country (withProvider p l) = country l"
  "state (withProvider p l) = state l"
  "city (withProvider p l) = city l"
  "normalizedCity (withProvider p l) = normalizedCity l"
  "asn (withProvider p l) = asn l"
  "latitude (withProvider p l) = latitude l"
  "longitude (withProvider p l) = longitude l"
  "network (withProvider p l) = network l"
  "normalizedNetwork (withProvider p l) = normalizedNetwork l"
  by (simp_all add: withProvider_def location_info.defs location_info_with_provider.defs)

lemmas example_defs =
  example_location_def dallas_def newYork_def buenosAires_def example_region_def
  example_normalize_def example_allowlist_def failed_def

section \<open>What the grouping and the sort compute\<close>

lemma first_seen_snoc:
  "first_seen (ks @ [k]) = (if k \<in> set ks then first_seen ks else first_seen ks @ [k])"
  by (simp add: first_seen_def)

lemma set_first_seen [simp]: "set (first_seen ks) = set ks"
  by (simp add: first_seen_def)

lemma distinct_first_seen [simp]: "distinct (first_seen ks)"
  by (simp add: first_seen_def)

lemma groupBy_snoc: "groupBy f (xs @ [x]) = assignValue (f x) x (groupBy f xs)"
  by (simp add: groupBy_def)

lemma assignValue_new:
  "k \<notin> fst ` set obj \<Longrightarrow> assignValue k v obj = obj @ [(k, [v])]"
  by (induction obj) auto

lemma assignValue_old:
  "distinct ks \<Longrightarrow> k \<in> set ks \<Longrightarrow>
     assignValue k v (map (\<lambda>k'. (k', F k')) ks)
       = map (\<lambda>k'. (k', if k' = k then F k' @ [v] else F k')) ks"
  by (induction ks) auto

lemma groupBy_first_seen:
  "groupBy f xs = map (\<lambda>k. (k, filter (\<lambda>x. f x = k) xs)) (first_seen (map f xs))"
proof (induction xs rule: rev_induct)
  case Nil
  show ?case by (simp add: groupBy_def first_seen_def)
next
  case (snoc x xs)
  let ?K = "first_seen (map f xs)"
  show ?case
  proof (cases "f x \<in> set (map f xs)")
    case True
    then have "f x \<in> set ?K" by simp
    then have "assignValue (f x) x (map (\<lambda>k. (k, filter (\<lambda>x. f x = k) xs)) ?K)
        = map (\<lambda>k'. (k', if k' = f x then filter (\<lambda>x. f x = k') xs @ [x]
                           else filter (\<lambda>x. f x = k') xs)) ?K"
      by (intro assignValue_old) simp_all
    also have "\<dots> = map (\<lambda>k. (k, filter (\<lambda>y. f y = k) (xs @ [x]))) ?K"
      by auto
    finally show ?thesis
      using True by (simp add: groupBy_snoc snoc.IH first_seen_snoc)
  next
    case False
    then have nx: "\<forall>y\<in>set xs. f y \<noteq> f x" by (metis image_eqI set_map)
    from False have "f x \<notin> fst ` set (map (\<lambda>k. (k, filter (\<lambda>x. f x = k) xs)) ?K)"
      by (auto simp: image_iff)
    then have "assignValue (f x) x (map (\<lambda>k. (k, filter (\<lambda>x. f x = k) xs)) ?K)
        = map (\<lambda>k. (k, filter (\<lambda>x. f x = k) xs)) ?K @ [(f x, [x])]"
      by (rule assignValue_new)
    moreover have "filter (\<lambda>y. f y = f x) xs = []"
      using nx by (auto simp: filter_empty_conv)
    moreover have "map (\<lambda>k. (k, filter (\<lambda>y. f y = k) (xs @ [x]))) ?K
        = map (\<lambda>k. (k, filter (\<lambda>x. f x = k) xs)) ?K"
      using nx by auto
    ultimately show ?thesis
      using False by (simp add: groupBy_snoc snoc.IH first_seen_snoc)
  qed
qed

lemma set_Object_values: "set (Object_values obj) = snd ` set obj"
  by (auto simp: Object_values_def image_iff)

lemma set_groups:
  "set (Object_values (groupBy f xs)) = (\<lambda>k. filter (\<lambda>x. f x = k) xs) ` f ` set xs"
  by (auto simp: set_Object_values groupBy_first_seen image_iff)

lemma set_ranked_sources: "set (ranked_sources f xs) = {x \<in> set xs. f x \<noteq> []}"
  by (auto simp: ranked_sources_def sortByLengthDesc_def set_groups)

lemma sortByLengthDesc_Nil [simp]: "sortByLengthDesc S = [] \<longleftrightarrow> S = []"
  unfolding sortByLengthDesc_def by (metis length_sort length_0_conv)

lemma hd_sortByLengthDesc:
  assumes "S \<noteq> []"
  shows "hd (sortByLengthDesc S) \<in> set S"
    and "g \<in> set S \<Longrightarrow> length g \<le> length (hd (sortByLengthDesc S))"
proof -
  let ?T = "sort_key (\<lambda>g. - int (length g)) S"
  have ne: "?T \<noteq> []" using assms by (metis length_sort list.size(3) length_0_conv)
  then obtain t ts where T: "?T = t # ts" by (cases ?T) auto
  have "set ?T = set S" by simp
  with T show "hd (sortByLengthDesc S) \<in> set S"
    by (auto simp: sortByLengthDesc_def)
  have srt: "sorted (map (\<lambda>g. - int (length g)) ?T)" by (rule sorted_sort_key)
  show "length g \<le> length (hd (sortByLengthDesc S))" if "g \<in> set S"
  proof -
    from that have "g \<in> set (t # ts)" using T \<open>set ?T = set S\<close> by simp
    then have "- int (length t) \<le> - int (length g)"
      using srt unfolding T by auto
    then show ?thesis by (simp add: sortByLengthDesc_def T)
  qed
qed

lemma length_two_filters:
  "k \<noteq> c \<Longrightarrow> length (filter (\<lambda>x. f x = k) xs) + length (filter (\<lambda>x. f x = c) xs) \<le> length xs"
  by (induction xs) auto

lemma hd_concat: "xs \<noteq> [] \<Longrightarrow> hd xs \<noteq> [] \<Longrightarrow> hd (concat xs) = hd (hd xs)"
  by (cases xs) auto

lemma ranked_majority:
  assumes P: "P = filter (\<lambda>s. f s \<noteq> []) xs"
    and maj: "length P < 2 * length (filter (\<lambda>s. f s = c) P)"
  shows "ranked_sources f xs \<noteq> []"
    and "hd (ranked_sources f xs) = hd (filter (\<lambda>s. f s = c) P)"
proof -
  let ?S = "Object_values (groupBy f P)"
  let ?G = "filter (\<lambda>s. f s = c) P"
  have Gne: "?G \<noteq> []" using maj by auto
  then have cin: "c \<in> f ` set P" by (auto simp: filter_empty_conv)
  then have Gin: "?G \<in> set ?S" by (simp add: set_groups)
  then have Sne: "?S \<noteq> []" by auto
  let ?h = "hd (sortByLengthDesc ?S)"
  from hd_sortByLengthDesc(1) [OF Sne] obtain k where k: "k \<in> f ` set P" "?h = filter (\<lambda>x. f x = k) P"
    by (auto simp: set_groups)
  have "length ?G \<le> length ?h" by (rule hd_sortByLengthDesc(2) [OF Sne Gin])
  with maj length_two_filters [of k c f P] k(2) have "k = c" by (cases "k = c") auto
  with k have h: "?h = ?G" by simp
  have T: "sortByLengthDesc ?S \<noteq> []" using Sne by simp
  have r: "ranked_sources f xs = concat (sortByLengthDesc ?S)"
    by (simp add: ranked_sources_def P)
  have "hd (concat (sortByLengthDesc ?S)) = hd ?h"
    using T h Gne by (intro hd_concat) simp_all
  with h r show "hd (ranked_sources f xs) = hd ?G" by simp
  have "?h \<in> set (sortByLengthDesc ?S)" using T by simp
  with h Gne have "concat (sortByLengthDesc ?S) \<noteq> []" by auto
  with r show "ranked_sources f xs \<noteq> []" by simp
qed

lemma first_seen_filter: "first_seen (filter Q ks) = filter Q (first_seen ks)"
  by (simp add: first_seen_def rev_filter remdups_filter)

lemma last_remdups: "xs \<noteq> [] \<Longrightarrow> last (remdups xs) = last xs"
proof (induction xs)
  case Nil
  then show ?case by simp
next
  case (Cons x xs)
  show ?case
  proof (cases "xs = []")
    case True
    then show ?thesis by simp
  next
    case False
    then have "remdups xs \<noteq> []" by simp
    with Cons.IH [OF False] False show ?thesis by simp
  qed
qed

lemma hd_first_seen: "ks \<noteq> [] \<Longrightarrow> hd (first_seen ks) = hd ks"
  by (simp add: first_seen_def hd_rev last_remdups last_rev)

lemma first_seen_Nil [simp]: "first_seen ks = [] \<longleftrightarrow> ks = []"
  by (simp add: first_seen_def)

lemma hd_filter_same_key:
  assumes "filter (\<lambda>s. Q (f s)) P \<noteq> []"
  shows "hd (filter (\<lambda>s. f s = f (hd (filter (\<lambda>s. Q (f s)) P))) P) = hd (filter (\<lambda>s. Q (f s)) P)"
  using assms
proof (induction P)
  case Nil
  then show ?case by simp
next
  case (Cons a P)
  show ?case
  proof (cases "Q (f a)")
    case True
    then show ?thesis by simp
  next
    case False
    with Cons.prems have ne: "filter (\<lambda>s. Q (f s)) P \<noteq> []" by simp
    then have "hd (filter (\<lambda>s. Q (f s)) P) \<in> set (filter (\<lambda>s. Q (f s)) P)" by (rule hd_in_set)
    then have "Q (f (hd (filter (\<lambda>s. Q (f s)) P)))" by simp
    with False have "f a \<noteq> f (hd (filter (\<lambda>s. Q (f s)) P))" by auto
    with False Cons.IH [OF ne] show ?thesis by simp
  qed
qed

lemma hd_sort_key_stable:
  assumes "xs \<noteq> []"
  shows "hd (sort_key k xs) = hd (filter (\<lambda>y. k y = k (hd (sort_key k xs))) xs)"
proof -
  let ?T = "sort_key k xs"
  have ne: "?T \<noteq> []" using assms by (metis length_sort length_0_conv)
  have "filter (\<lambda>y. k y = k (hd ?T)) xs = filter (\<lambda>y. k y = k (hd ?T)) ?T"
    by (simp add: sort_key_stable)
  also have "hd \<dots> = hd ?T" using ne by (cases ?T) simp_all
  finally show ?thesis by simp
qed

lemma Object_values_no_index:
  "\<forall>p\<in>set obj. \<not> isArrayIndex (fst p) \<Longrightarrow> Object_values obj = map snd obj"
proof -
  assume a: "\<forall>p\<in>set obj. \<not> isArrayIndex (fst p)"
  then have "filter (\<lambda>p. isArrayIndex (fst p)) obj = []" by (simp add: filter_empty_conv)
  moreover from a have "filter (\<lambda>p. \<not> isArrayIndex (fst p)) obj = obj" by (simp add: filter_id_conv)
  ultimately show ?thesis by (simp add: Object_values_def)
qed

section \<open>What the vote and the assembly of the result compute\<close>

lemma settled_results_cases:
  "settled_results wl addr rA rB rC rD rE =
     (if (\<exists>v. rA = Inr v \<and> isProxy v) \<and> \<not> wl addr then Inl (InternalError ''vpn detected'' True)
      else Inr (List.map_filter id (fulfilled rA rB rC rD rE)))"
  by (cases rA) (simp_all add: settled_results_def)

lemma resolve_message: "resolve reg nrm addr results = Inl e \<Longrightarrow> message e \<noteq> ''vpn detected''"
  by (auto simp: resolve_def unresolvable_def bestMatch_def bestMatch_message_def Let_def
      split: if_splits sum.splits list.splits option.splits prod.splits)

lemma matchNetwork_scan_find:
  "matchNetwork_scan best r =
     map_option (\<lambda>s. \<lparr>ni_network = network s, ni_normalizedNetwork = normalizedNetwork s, ni_asn = asn s\<rparr>)
       (find (\<lambda>s. normalizedCity s = normalizedCity best \<and> asn s \<noteq> 0 \<and> network s \<noteq> []) r)"
  by (induction r) simp_all

lemma resolve_after_vote:
  assumes "\<not> (length (filter (\<lambda>s. city s \<noteq> []) results) = 0
            \<or> (length (filter (\<lambda>s. city s \<noteq> []) results) = 1
                 \<and> provider (hd (filter (\<lambda>s. city s \<noteq> []) results)) = fastly))"
    and "bestMatch ''normalizedCity'' normalizedCity results = Inr (w, r)"
  shows "resolve reg nrm addr results =
     (case matchNetwork w r of
        None \<Rightarrow> Inl (unresolvable addr)
      | Some n \<Rightarrow> Inr \<lparr> continent = continent w, country = country w, state = state w, city = city w,
            normalizedCity = normalizedCity w, asn = ni_asn n, latitude = latitude w,
            longitude = longitude w, network = ni_network n, normalizedNetwork = ni_normalizedNetwork n,
            region = reg (country w), normalizedRegion = nrm (reg (country w)) \<rparr>)"
  using assms by (simp add: resolve_def matchRegion_def Let_def split: option.splits)

lemma results_fastly_last:
  "\<exists>pre post. List.map_filter id (fulfilled rA rB rC rD rE) = pre @ post
     \<and> (\<forall>x\<in>set pre. provider x \<noteq> fastly) \<and> length post \<le> 1"
proof -
  let ?pre = "List.map_filter id
     [case rA of Inr v \<Rightarrow> Some (withProvider ip2location (location v)) | Inl _ \<Rightarrow> None,
      case rB of Inr v \<Rightarrow> Some (withProvider ipmap v) | Inl _ \<Rightarrow> None,
      case rC of Inr v \<Rightarrow> Some (withProvider maxmind v) | Inl _ \<Rightarrow> None,
      case rD of Inr v \<Rightarrow> Some (withProvider ipinfo v) | Inl _ \<Rightarrow> None]"
  let ?post = "List.map_filter id [case rE of Inr v \<Rightarrow> Some (withProvider fastly v) | Inl _ \<Rightarrow> None]"
  have "List.map_filter id (fulfilled rA rB rC rD rE) = ?pre @ ?post"
    by (simp add: fulfilled_def List.map_filter_def)
  moreover have "\<forall>x\<in>set ?pre. provider x \<noteq> fastly"
    by (auto simp: List.map_filter_def split: sum.splits)
  moreover have "length ?post \<le> 1"
    by (simp add: List.map_filter_def split: sum.splits)
  ultimately show ?thesis by blast
qed

lemma group_headed_by_fastly:
  assumes "results = pre @ post" "\<forall>x\<in>set pre. provider x \<noteq> fastly" "length post \<le> 1"
    and "filter Q results \<noteq> []" "provider (hd (filter Q results)) = fastly"
  shows "length (filter Q results) \<le> 1"
proof -
  have "filter Q pre = []"
  proof (rule ccontr)
    assume ne: "filter Q pre \<noteq> []"
    then have "hd (filter Q results) = hd (filter Q pre)" using assms(1) by simp
    moreover have "hd (filter Q pre) \<in> set pre" using ne
      by (metis filter_is_subset hd_in_set subsetD)
    ultimately show False using assms(2,5) by auto
  qed
  then have "length (filter Q results) = length (filter Q post)" using assms(1) by simp
  moreover have "length (filter Q post) \<le> length post" by simp
  ultimately show ?thesis using assms(3) by linarith
qed

lemma settled_results_Inr:
  "settled_results wl addr rA rB rC rD rE = Inr results
     \<Longrightarrow> results = List.map_filter id (fulfilled rA rB rC rD rE)"
  by (simp add: settled_results_cases split: if_splits)

lemma bestMatch_cases:
  "bestMatch fieldName f results =
     (if ranked_sources f results = [] \<or> provider (hd (ranked_sources f results)) = fastly
      then Inl (Error (bestMatch_message fieldName))
      else Inr (location_info.truncate (hd (ranked_sources f results)), ranked_sources f results))"
  by (simp add: bestMatch_def Let_def split: list.splits)

lemma bestMatch_Inr:
  assumes "bestMatch fieldName f results = Inr (w, r)"
  shows "r = ranked_sources f results" "r \<noteq> []" "provider (hd r) \<noteq> fastly"
    "w = location_info.truncate (hd r)"
proof -
  show r: "r = ranked_sources f results"
    using assms unfolding bestMatch_def Let_def
    by (cases "ranked_sources f results") (simp_all split: if_splits)
  show "r \<noteq> []"
    using assms unfolding bestMatch_def Let_def r
    by (cases "ranked_sources f results") (simp_all split: if_splits)
  show "provider (hd r) \<noteq> fastly"
    using assms unfolding bestMatch_def Let_def r
    by (cases "ranked_sources f results") (simp_all split: if_splits)
  show "w = location_info.truncate (hd r)"
    using assms unfolding bestMatch_def Let_def r
    by (cases "ranked_sources f results") (simp_all split: if_splits)
qed

lemma truncate_normalizedCity [simp]:
  "normalizedCity (location_info.truncate s) = normalizedCity s"
  "asn (location_info.truncate s) = asn s"
  "network (location_info.truncate s) = network s"
  "normalizedNetwork (location_info.truncate s) = normalizedNetwork s"
  "city (location_info.truncate s) = city s"
  "country (location_info.truncate s) = country s"
  "continent (location_info.truncate s) = continent s"
  "state (location_info.truncate s) = state s"
  "latitude (location_info.truncate s) = latitude s"
  "longitude (location_info.truncate s) = longitude s"
  by (simp_all add: location_info.defs)

lemma resolve_Inr:
  assumes "resolve reg nrm addr results = Inr res"
  shows "\<exists>w r n. bestMatch ''normalizedCity'' normalizedCity results = Inr (w, r)
           \<and> matchNetwork w r = Some n
           \<and> res = \<lparr> continent = continent w, country = country w, state = state w, city = city w,
                normalizedCity = normalizedCity w, asn = ni_asn n, latitude = latitude w,
                longitude = longitude w, network = ni_network n,
                normalizedNetwork = ni_normalizedNetwork n,
                region = reg (country w), normalizedRegion = nrm (reg (country w)) \<rparr>"
proof -
  have step4: "\<not> (length (filter (\<lambda>s. city s \<noteq> []) results) = 0
            \<or> (length (filter (\<lambda>s. city s \<noteq> []) results) = 1
                 \<and> provider (hd (filter (\<lambda>s. city s \<noteq> []) results)) = fastly))"
    using assms unfolding resolve_def Let_def by (simp split: if_splits)
  obtain w r where b: "bestMatch ''normalizedCity'' normalizedCity results = Inr (w, r)"
  proof (cases "bestMatch ''normalizedCity'' normalizedCity results")
    case (Inl e)
    with assms step4 have False unfolding resolve_def Let_def by (simp split: if_splits)
    then show ?thesis ..
  next
    case (Inr p)
    with that show ?thesis by (cases p) simp
  qed
  note r = assms [unfolded resolve_after_vote [OF step4 b]]
  show ?thesis
  proof (cases "matchNetwork w r")
    case None
    with r show ?thesis by simp
  next
    case (Some n)
    with r b show ?thesis by simp
  qed
qed

lemma vote_winner_of_majority:
  assumes "length (filter (\<lambda>s. normalizedCity s \<noteq> []) results)
             < 2 * length (filter (\<lambda>s. normalizedCity s = c) (filter (\<lambda>s. normalizedCity s \<noteq> []) results))"
    and "bestMatch ''normalizedCity'' normalizedCity results = Inr (w, r)"
  shows "normalizedCity w = c"
proof -
  let ?P = "filter (\<lambda>s. normalizedCity s \<noteq> []) results"
  let ?G = "filter (\<lambda>s. normalizedCity s = c) ?P"
  have hd: "hd (ranked_sources normalizedCity results) = hd ?G"
    by (rule ranked_majority(2) [OF refl assms(1)])
  have "?G \<noteq> []" using assms(1) by auto
  then have "hd ?G \<in> set ?G" by (rule hd_in_set)
  then have "normalizedCity (hd ?G) = c" by simp
  moreover have "w = location_info.truncate (hd (ranked_sources normalizedCity results))"
    using bestMatch_Inr(1,4) [OF assms(2)] by simp
  ultimately show ?thesis using hd by simp
qed

lemma majority_not_fastly:
  assumes pp: "results = pre @ post" "\<forall>x\<in>set pre. provider x \<noteq> fastly" "length post \<le> 1"
    and step4: "\<not> (length (filter (\<lambda>s. city s \<noteq> []) results) = 0
            \<or> (length (filter (\<lambda>s. city s \<noteq> []) results) = 1
                 \<and> provider (hd (filter (\<lambda>s. city s \<noteq> []) results)) = fastly))"
    and maj: "length results < 2 * length (filter Q results)"
  shows "provider (hd (filter Q results)) \<noteq> fastly"
proof
  assume E: "provider (hd (filter Q results)) = fastly"
  have Gne: "filter Q results \<noteq> []" using maj by auto
  have "length (filter Q results) \<le> 1"
    by (rule group_headed_by_fastly [OF pp Gne E])
  with maj have len: "length results \<le> 1" by linarith
  from Gne have "results \<noteq> []" by auto
  with len obtain a where a: "results = [a]" by (cases results) auto
  from Gne a have Qa: "Q a" by (cases "Q a") simp_all
  with E a have pa: "provider a = fastly" by simp
  show False
  proof (cases "city a = []")
    case True
    with step4 a show False by simp
  next
    case False
    with step4 a pa show False by simp
  qed
qed

lemma matchNetwork_Some:
  assumes "matchNetwork w r = Some n" and "r \<noteq> []" and "w = location_info.truncate (hd r)"
  shows "\<exists>d\<in>set r. normalizedCity d = normalizedCity w \<and> asn d \<noteq> 0 \<and> network d \<noteq> []
           \<and> ni_asn n = asn d \<and> ni_network n = network d
           \<and> ni_normalizedNetwork n = normalizedNetwork d"
proof (cases "asn w \<noteq> 0 \<and> network w \<noteq> []")
  case True
  with assms(1) have n: "n = \<lparr>ni_network = network w, ni_normalizedNetwork = normalizedNetwork w,
      ni_asn = asn w\<rparr>"
    by (simp add: matchNetwork_def)
  have "hd r \<in> set r" using assms(2) by simp
  moreover have "normalizedCity (hd r) = normalizedCity w" "asn (hd r) = asn w"
    "network (hd r) = network w" "normalizedNetwork (hd r) = normalizedNetwork w"
    using assms(3) by simp_all
  ultimately show ?thesis using True n by (intro bexI [of _ "hd r"]) simp_all
next
  case False
  with assms(1) have "matchNetwork_scan w r = Some n"
    by (simp add: matchNetwork_def split: if_splits)
  then obtain d where f: "find (\<lambda>s. normalizedCity s = normalizedCity w \<and> asn s \<noteq> 0 \<and> network s \<noteq> []) r = Some d"
    and n: "n = \<lparr>ni_network = network d, ni_normalizedNetwork = normalizedNetwork d, ni_asn = asn d\<rparr>"
    unfolding matchNetwork_scan_find by auto
  from f have "d \<in> set r" "normalizedCity d = normalizedCity w" "asn d \<noteq> 0" "network d \<noteq> []"
    by (auto simp: find_Some_iff)
  with n show ?thesis by (intro bexI [of _ d]) simp_all
qed

section \<open>What the cache-aside wrapper computes\<close>

lemma fst_lookupWithCache_compute [simp]:
  "fst (lookupWithCache_compute cache ttl key fn w) = fn"
  by (simp add: lookupWithCache_compute_def Let_def split: sum.splits prod.splits)

lemma trace_lookupWithCache_compute:
  "FnCalled key \<in> set (trace (snd (lookupWithCache_compute cache ttl key fn w)))"
  by (simp add: lookupWithCache_compute_def Let_def split: sum.splits prod.splits)

lemma backend_lookupWithCache_compute:
  "backend (snd (lookupWithCache_compute cache ttl key (Inr info) w))
     = snd (cache_set cache key info ttl (backend w))"
  by (simp add: lookupWithCache_compute_def Let_def split: sum.splits prod.splits)

lemma lookupWithCache_get_rejects:
  "cache_get cache key (backend w) = (Inl e, c) \<Longrightarrow>
     lookupWithCache truthy cache ttl key fn w
       = lookupWithCache_compute cache ttl key fn
           \<lparr>backend = c,
            trace = trace w @ [LoggerError ''Failed to get cached geoip info for probe.'' e,
                               NoticeError e key None]\<rparr>"
  by (simp add: lookupWithCache_def)

lemma lookupWithCache_miss:
  "cache_get cache key (backend w) = (Inr None, c) \<Longrightarrow>
     lookupWithCache truthy cache ttl key fn w
       = lookupWithCache_compute cache ttl key fn (w\<lparr>backend := c\<rparr>)"
  by (simp add: lookupWithCache_def)

lemma lookupWithCache_value:
  "cache_get cache key (backend w) = (Inr (Some v), c) \<Longrightarrow>
     lookupWithCache truthy cache ttl key fn w
       = (if truthy v then (Inr v, w\<lparr>backend := c\<rparr>)
          else lookupWithCache_compute cache ttl key fn (w\<lparr>backend := c\<rparr>))"
  by (simp add: lookupWithCache_def)

lemma lookupWithCache_never_hits:
  assumes "never_hits cache"
  shows "fst (lookupWithCache truthy cache ttl key fn w) = fn"
proof (cases "cache_get cache key (backend w)")
  case (Pair g c)
  from assms have "isl g \<or> g = Inr None"
    unfolding never_hits_def using Pair by (metis fst_conv)
  then show ?thesis
  proof
    assume "isl g"
    then obtain e where "g = Inl e" by (cases g) auto
    with Pair show ?thesis by (simp add: lookupWithCache_get_rejects)
  next
    assume "g = Inr None"
    with Pair show ?thesis by (simp add: lookupWithCache_miss)
  qed
qed

lemma lookup_never_hits:
  assumes "never_hits cacheB" "never_hits cacheL"
  shows "fst (lookup wl reg nrm cacheB cacheL ttl ps addr w)
           = lookup_settled wl reg nrm addr (ip2LocationLookup ps addr) (ipmapLookup ps addr)
               (maxmindLookup ps addr) (ipinfoLookup ps addr) (fastlyLookup ps addr)"
proof -
  have B: "lookupWithCache truthy cacheB ttl key fn w = (r, w') \<Longrightarrow> r = fn" for truthy key fn w r w'
    using lookupWithCache_never_hits [OF assms(1), of truthy ttl key fn w] by simp
  have L: "lookupWithCache truthy cacheL ttl key fn w = (r, w') \<Longrightarrow> r = fn" for truthy key fn w r w'
    using lookupWithCache_never_hits [OF assms(2), of truthy ttl key fn w] by simp
  show ?thesis
    unfolding lookup_def
    by (auto split: prod.splits dest!: B L)
qed

lemma always_rejects_never_hits: "always_rejects cache \<Longrightarrow> never_hits cache"
  by (simp add: always_rejects_def never_hits_def)

lemma never_hits_NullCache: "never_hits NullCache"
  by (simp add: never_hits_def NullCache_def)

lemma always_rejects_BrokenCache: "always_rejects BrokenCache"
  by (simp add: always_rejects_def BrokenCache_def)

lemma lookupWithCache_rejects_as_fn:
  assumes "fst (lookupWithCache truthy cache ttl key fn w) = Inl e"
  shows "fn = Inl e"
proof (cases "cache_get cache key (backend w)")
  case (Pair g c)
  show ?thesis
  proof (cases g)
    case (Inl e')
    with Pair assms show ?thesis by (simp add: lookupWithCache_get_rejects)
  next
    case (Inr v)
    show ?thesis
    proof (cases v)
      case None
      with Pair Inr assms show ?thesis by (simp add: lookupWithCache_miss)
    next
      case (Some x)
      with Pair Inr assms show ?thesis
        by (cases "truthy x") (simp_all add: lookupWithCache_value)
    qed
  qed
qed

section \<open>The VPN gate\<close>

text \<open>
  C3. \<open>lookup\<close> fails with the message \<open>vpn detected\<close> if and only if ip2location succeeded
  with \<open>isProxy\<close> true and the address is not allowlisted. Then the failure is the
  \<open>InternalError\<close> with exactly this message, whatever the other four providers returned
  (no vote takes place). For an allowlisted address, the input flagged as a proxy gives
  the result of the same input not flagged.
\<close>

theorem lookup_vpn_gate:
  "((\<exists>e. lookup_settled wl reg nrm addr rA rB rC rD rE = Inl e \<and> message e = ''vpn detected'')
      \<longleftrightarrow> (\<exists>v. rA = Inr v \<and> isProxy v \<and> \<not> wl addr))
   \<and> ((\<exists>v. rA = Inr v \<and> isProxy v \<and> \<not> wl addr)
        \<longrightarrow> lookup_settled wl reg nrm addr rA rB rC rD rE = Inl (InternalError ''vpn detected'' True))
   \<and> (wl addr \<longrightarrow>
        lookup_settled wl reg nrm addr (Inr \<lparr>location = l, isProxy = True\<rparr>) rB rC rD rE
          = lookup_settled wl reg nrm addr (Inr \<lparr>location = l, isProxy = False\<rparr>) rB rC rD rE)"
proof (intro conjI)
  show "(\<exists>e. lookup_settled wl reg nrm addr rA rB rC rD rE = Inl e \<and> message e = ''vpn detected'')
      \<longleftrightarrow> (\<exists>v. rA = Inr v \<and> isProxy v \<and> \<not> wl addr)"
    by (auto simp: lookup_settled_def settled_results_cases dest: resolve_message
        split: sum.splits if_splits)
  show "(\<exists>v. rA = Inr v \<and> isProxy v \<and> \<not> wl addr)
        \<longrightarrow> lookup_settled wl reg nrm addr rA rB rC rD rE = Inl (InternalError ''vpn detected'' True)"
    by (auto simp: lookup_settled_def settled_results_cases)
  show "wl addr \<longrightarrow>
        lookup_settled wl reg nrm addr (Inr \<lparr>location = l, isProxy = True\<rparr>) rB rC rD rE
          = lookup_settled wl reg nrm addr (Inr \<lparr>location = l, isProxy = False\<rparr>) rB rC rD rE"
    by (simp add: lookup_settled_def settled_results_cases fulfilled_def)
qed

text \<open>
  The four other providers agree on Dallas; ip2location flags a proxy. The address
  \<open>131.255.7.26\<close> is not allowlisted and is rejected; \<open>5.134.119.43\<close> is allowlisted and
  gets the result of the unflagged input.
\<close>

theorem lookup_vpn_gate_witness:
  "\<not> example_allowlist ''131.255.7.26''
   \<and> lookup_settled example_allowlist example_region example_normalize ''131.255.7.26''
        (Inr \<lparr>location = dallas 20001 ''constant'', isProxy = True\<rparr>)
        (Inr (dallas 0 []))
        (Inr (dallas 20003 ''psychz''))
        (Inr (dallas 20004 ''psychz''))
        (Inr (dallas 20005 ''psychz''))
      = Inl (InternalError ''vpn detected'' True)
   \<and> example_allowlist ''5.134.119.43''
   \<and> lookup_settled example_allowlist example_region example_normalize ''5.134.119.43''
        (Inr \<lparr>location = dallas 20001 ''constant'', isProxy = True\<rparr>)
        (Inr (dallas 0 []))
        failed failed failed
      = lookup_settled example_allowlist example_region example_normalize ''5.134.119.43''
        (Inr \<lparr>location = dallas 20001 ''constant'', isProxy = False\<rparr>)
        (Inr (dallas 0 []))
        failed failed failed"
  using lookup_vpn_gate [of example_allowlist example_region example_normalize "''131.255.7.26''"
      "Inr \<lparr>location = dallas 20001 ''constant'', isProxy = True\<rparr>"
      "Inr (dallas 0 [])"
      "Inr (dallas 20003 ''psychz'')"
      "Inr (dallas 20004 ''psychz'')"
      "Inr (dallas 20005 ''psychz'')"]
    lookup_vpn_gate [of example_allowlist example_region example_normalize "''5.134.119.43''"
      failed "Inr (dallas 0 [])" failed failed failed
      "dallas 20001 ''constant''"]
  by (simp add: example_allowlist_def)

section \<open>No city, or a city from fastly alone\<close>

text \<open>
  C4. When the settled results pass the VPN gate and no candidate has a non-empty city, or
  exactly one has and it comes from fastly, \<open>lookup\<close> fails with the \<open>InternalError\<close> whose
  message is \<open>unresolvable geoip: \<close> followed by the address.
\<close>

theorem lookup_unresolvable_without_city:
  assumes "settled_results wl addr rA rB rC rD rE = Inr results"
    and "filter (\<lambda>s. city s \<noteq> []) results = []
         \<or> (\<exists>s. filter (\<lambda>s. city s \<noteq> []) results = [s] \<and> provider s = fastly)"
  shows "lookup_settled wl reg nrm addr rA rB rC rD rE
           = Inl (InternalError (''unresolvable geoip: '' @ addr) True)"
  using assms by (auto simp: lookup_settled_def resolve_def unresolvable_def)

text \<open>Only fastly answers, and it reports a city.\<close>

theorem lookup_unresolvable_without_city_witness:
  "settled_results example_allowlist ''131.255.7.26'' failed failed failed failed
       (Inr (dallas 20005 ''psychz''))
     = Inr [withProvider fastly (dallas 20005 ''psychz'')]
   \<and> filter (\<lambda>s. city s \<noteq> [])
        [withProvider fastly (dallas 20005 ''psychz'')]
     = [withProvider fastly (dallas 20005 ''psychz'')]
   \<and> provider (withProvider fastly (dallas 20005 ''psychz'')) = fastly
   \<and> lookup_settled example_allowlist example_region example_normalize ''131.255.7.26''
        failed failed failed failed (Inr (dallas 20005 ''psychz''))
     = Inl (InternalError ''unresolvable geoip: 131.255.7.26'' True)"
proof -
  let ?e = "withProvider fastly (dallas 20005 ''psychz'')"
  have 1: "settled_results example_allowlist ''131.255.7.26'' failed failed failed failed
       (Inr (dallas 20005 ''psychz'')) = Inr [?e]"
    by (simp add: settled_results_def failed_def fulfilled_def)
  have 2: "filter (\<lambda>s. city s \<noteq> []) [?e] = [?e]"
    by (simp add: example_defs)
  have 3: "provider ?e = fastly"
    by simp
  from 2 3 have 4: "filter (\<lambda>s. city s \<noteq> []) [?e] = []
         \<or> (\<exists>s. filter (\<lambda>s. city s \<noteq> []) [?e] = [s] \<and> provider s = fastly)"
    by blast
  show ?thesis
    using lookup_unresolvable_without_city [OF 1 4, of example_region example_normalize] 1 2 3
    by simp
qed

section \<open>Network repair\<close>

text \<open>
  C5. Let the results pass the VPN gate and the test on the cities, and let the vote give
  the winner \<open>w\<close> and the ranked sequence \<open>r\<close>. If \<open>w\<close> has a non-zero \<open>asn\<close> and a non-empty
  network, the result carries the \<open>asn\<close>, \<open>network\<close> and \<open>normalizedNetwork\<close> of \<open>w\<close>.
  Otherwise it carries those of the first candidate of \<open>r\<close> that has the \<open>normalizedCity\<close>
  of \<open>w\<close>, a non-zero \<open>asn\<close> and a non-empty network; and when \<open>r\<close> has no such candidate,
  \<open>lookup\<close> fails with the message \<open>unresolvable geoip: \<close> followed by the address.
\<close>

theorem lookup_network_repair:
  assumes "settled_results wl addr rA rB rC rD rE = Inr results"
    and "\<not> (length (filter (\<lambda>s. city s \<noteq> []) results) = 0
            \<or> (length (filter (\<lambda>s. city s \<noteq> []) results) = 1
                 \<and> provider (hd (filter (\<lambda>s. city s \<noteq> []) results)) = fastly))"
    and "bestMatch ''normalizedCity'' normalizedCity results = Inr (w, r)"
  shows "(asn w \<noteq> 0 \<and> network w \<noteq> [] \<longrightarrow>
            (\<exists>res. lookup_settled wl reg nrm addr rA rB rC rD rE = Inr res
               \<and> asn res = asn w \<and> network res = network w
               \<and> normalizedNetwork res = normalizedNetwork w))
       \<and> (\<not> (asn w \<noteq> 0 \<and> network w \<noteq> []) \<longrightarrow>
            (case find (\<lambda>s. normalizedCity s = normalizedCity w \<and> asn s \<noteq> 0 \<and> network s \<noteq> []) r of
               Some s \<Rightarrow>
                 (\<exists>res. lookup_settled wl reg nrm addr rA rB rC rD rE = Inr res
                    \<and> asn res = asn s \<and> network res = network s
                    \<and> normalizedNetwork res = normalizedNetwork s)
             | None \<Rightarrow>
                 lookup_settled wl reg nrm addr rA rB rC rD rE
                   = Inl (InternalError (''unresolvable geoip: '' @ addr) True)))"
proof -
  have eq: "lookup_settled wl reg nrm addr rA rB rC rD rE = resolve reg nrm addr results"
    using assms(1) by (simp add: lookup_settled_def)
  show ?thesis
    unfolding eq resolve_after_vote [OF assms(2,3)]
    by (simp add: matchNetwork_def matchNetwork_scan_find unresolvable_def split: option.splits)
qed

text \<open>
  Three inputs. ip2location and ipmap report Dallas, ip2location with a network: it wins
  and its network is used. ipmap (no network) and maxmind report Dallas: ipmap wins, the
  network is the one of maxmind. ipmap reports Dallas without a network and maxmind
  reports New York: ipmap wins and no candidate of its city has a network.
\<close>

theorem lookup_network_repair_witness:
  "(\<exists>res. lookup_settled example_allowlist example_region example_normalize ''131.255.7.26''
        (Inr \<lparr>location = dallas 20001 ''constant'', isProxy = False\<rparr>) (Inr (dallas 0 []))
        failed failed failed = Inr res
      \<and> asn res = 20001 \<and> network res = ''constant'' \<and> normalizedNetwork res = ''constant'')
   \<and> (\<exists>res. lookup_settled example_allowlist example_region example_normalize ''131.255.7.26''
        failed (Inr (dallas 0 [])) (Inr (dallas 20003 ''psychz'')) failed failed = Inr res
      \<and> asn res = 20003 \<and> network res = ''psychz'' \<and> normalizedNetwork res = ''psychz'')
   \<and> lookup_settled example_allowlist example_region example_normalize ''131.255.7.26''
        failed (Inr (dallas 0 [])) (Inr (newYork 80003 ''constant'')) failed failed
      = Inl (InternalError ''unresolvable geoip: 131.255.7.26'' True)"
proof -
  let ?a = "withProvider ip2location (dallas 20001 ''constant'')"
  let ?b = "withProvider ipmap (dallas 0 [])"
  let ?c = "withProvider maxmind (dallas 20003 ''psychz'')"
  let ?n = "withProvider maxmind (newYork 80003 ''constant'')"
  have s1: "settled_results example_allowlist ''131.255.7.26''
              (Inr \<lparr>location = dallas 20001 ''constant'', isProxy = False\<rparr>) (Inr (dallas 0 []))
              failed failed failed = Inr [?a, ?b]"
    by (simp add: settled_results_def fulfilled_def failed_def)
  have s2: "settled_results example_allowlist ''131.255.7.26''
              failed (Inr (dallas 0 [])) (Inr (dallas 20003 ''psychz'')) failed failed = Inr [?b, ?c]"
    by (simp add: settled_results_def fulfilled_def failed_def)
  have s3: "settled_results example_allowlist ''131.255.7.26''
              failed (Inr (dallas 0 [])) (Inr (newYork 80003 ''constant'')) failed failed = Inr [?b, ?n]"
    by (simp add: settled_results_def fulfilled_def failed_def)
  have c1: "\<not> (length (filter (\<lambda>s. city s \<noteq> []) [?a, ?b]) = 0
            \<or> (length (filter (\<lambda>s. city s \<noteq> []) [?a, ?b]) = 1
                 \<and> provider (hd (filter (\<lambda>s. city s \<noteq> []) [?a, ?b])) = fastly))"
    by (simp add: example_defs)
  have c2: "\<not> (length (filter (\<lambda>s. city s \<noteq> []) [?b, ?c]) = 0
            \<or> (length (filter (\<lambda>s. city s \<noteq> []) [?b, ?c]) = 1
                 \<and> provider (hd (filter (\<lambda>s. city s \<noteq> []) [?b, ?c])) = fastly))"
    by (simp add: example_defs)
  have c3: "\<not> (length (filter (\<lambda>s. city s \<noteq> []) [?b, ?n]) = 0
            \<or> (length (filter (\<lambda>s. city s \<noteq> []) [?b, ?n]) = 1
                 \<and> provider (hd (filter (\<lambda>s. city s \<noteq> []) [?b, ?n])) = fastly))"
    by (simp add: example_defs)
  have b1: "bestMatch ''normalizedCity'' normalizedCity [?a, ?b]
              = Inr (dallas 20001 ''constant'', [?a, ?b])"
    by code_simp
  have b2: "bestMatch ''normalizedCity'' normalizedCity [?b, ?c] = Inr (dallas 0 [], [?b, ?c])"
    by code_simp
  have b3: "bestMatch ''normalizedCity'' normalizedCity [?b, ?n] = Inr (dallas 0 [], [?b, ?n])"
    by code_simp
  show ?thesis
    using lookup_network_repair [OF s1 c1 b1, of example_region example_normalize]
      lookup_network_repair [OF s2 c2 b2, of example_region example_normalize]
      lookup_network_repair [OF s3 c3 b3, of example_region example_normalize]
    by (simp add: example_defs)
qed

section \<open>The defensive branch of the vote\<close>

text \<open>
  C7, as the specification states it, fails: ip2location alone answers, with a city and
  an empty \<open>normalizedCity\<close>. The results pass the VPN gate and the test on the cities, the
  vote has no candidate and no winner, and \<open>lookup\<close> does not fail with the error of the
  test on the cities.
\<close>

theorem lookup_defensive_branch_counterexample:
  "settled_results example_allowlist ''131.255.7.26''
       (Inr \<lparr>location = example_location ''FR'' None ''Paris'' [] 1 ''a'', isProxy = False\<rparr>)
       failed failed failed failed
     = Inr [withProvider ip2location (example_location ''FR'' None ''Paris'' [] 1 ''a'')]
   \<and> city (withProvider ip2location (example_location ''FR'' None ''Paris'' [] 1 ''a'')) = ''Paris''
   \<and> provider (withProvider ip2location (example_location ''FR'' None ''Paris'' [] 1 ''a''))
       = ip2location
   \<and> ranked_sources normalizedCity
        [withProvider ip2location (example_location ''FR'' None ''Paris'' [] 1 ''a'')] = []
   \<and> lookup_settled example_allowlist example_region example_normalize ''131.255.7.26''
        (Inr \<lparr>location = example_location ''FR'' None ''Paris'' [] 1 ''a'', isProxy = False\<rparr>)
        failed failed failed failed
     \<noteq> Inl (InternalError ''unresolvable geoip: 131.255.7.26'' True)
   \<and> lookup_settled example_allowlist example_region example_normalize ''131.255.7.26''
        (Inr \<lparr>location = example_location ''FR'' None ''Paris'' [] 1 ''a'', isProxy = False\<rparr>)
        failed failed failed failed
     = Inl (Error (''failed to find a correct value for a field '' @ [CHR 0x22]
                    @ ''normalizedCity'' @ [CHR 0x22]))"
  by (simp add: lookup_settled_def settled_results_def fulfilled_def resolve_def bestMatch_def
      bestMatch_message_def ranked_sources_def groupBy_def Object_values_def sortByLengthDesc_def
      example_defs)

text \<open>
  C7, amended. When the results pass the VPN gate and the test on the cities, and the
  vote yields no winner or a winner from fastly, \<open>lookup\<close> fails with the generic \<open>Error\<close>
  thrown by \<open>bestMatch\<close>, whose message is
  \<open>failed to find a correct value for a field "normalizedCity"\<close>; this is not the
  \<open>InternalError\<close> of the test on the cities.
\<close>

theorem lookup_defensive_branch:
  assumes "settled_results wl addr rA rB rC rD rE = Inr results"
    and "\<not> (length (filter (\<lambda>s. city s \<noteq> []) results) = 0
            \<or> (length (filter (\<lambda>s. city s \<noteq> []) results) = 1
                 \<and> provider (hd (filter (\<lambda>s. city s \<noteq> []) results)) = fastly))"
    and "ranked_sources normalizedCity results = []
         \<or> provider (hd (ranked_sources normalizedCity results)) = fastly"
  shows "lookup_settled wl reg nrm addr rA rB rC rD rE
           = Inl (Error (''failed to find a correct value for a field '' @ [CHR 0x22]
                          @ ''normalizedCity'' @ [CHR 0x22]))
       \<and> lookup_settled wl reg nrm addr rA rB rC rD rE
           \<noteq> Inl (InternalError (''unresolvable geoip: '' @ addr) True)"
  using assms
  by (auto simp: lookup_settled_def resolve_def bestMatch_def bestMatch_message_def Let_def
      split: list.splits)

text \<open>
  ip2location reports a city without a \<open>normalizedCity\<close> and fastly reports Dallas: two
  candidates have a city, fastly alone takes part in the vote and wins it.
\<close>

theorem lookup_defensive_branch_witness:
  "provider (hd (ranked_sources normalizedCity
       [withProvider ip2location (example_location ''FR'' None ''Paris'' [] 1 ''a''),
        withProvider fastly (dallas 20005 ''psychz'')])) = fastly
   \<and> lookup_settled example_allowlist example_region example_normalize ''131.255.7.26''
        (Inr \<lparr>location = example_location ''FR'' None ''Paris'' [] 1 ''a'', isProxy = False\<rparr>)
        failed failed failed (Inr (dallas 20005 ''psychz''))
     = Inl (Error (''failed to find a correct value for a field '' @ [CHR 0x22]
                    @ ''normalizedCity'' @ [CHR 0x22]))"
proof -
  let ?a = "withProvider ip2location (example_location ''FR'' None ''Paris'' [] 1 ''a'')"
  let ?e = "withProvider fastly (dallas 20005 ''psychz'')"
  have s: "settled_results example_allowlist ''131.255.7.26''
             (Inr \<lparr>location = example_location ''FR'' None ''Paris'' [] 1 ''a'', isProxy = False\<rparr>)
             failed failed failed (Inr (dallas 20005 ''psychz'')) = Inr [?a, ?e]"
    by (simp add: settled_results_def fulfilled_def failed_def)
  have c: "\<not> (length (filter (\<lambda>s. city s \<noteq> []) [?a, ?e]) = 0
            \<or> (length (filter (\<lambda>s. city s \<noteq> []) [?a, ?e]) = 1
                 \<and> provider (hd (filter (\<lambda>s. city s \<noteq> []) [?a, ?e])) = fastly))"
    by (simp add: example_defs)
  have r: "ranked_sources normalizedCity [?a, ?e] = [?e]"
    by code_simp
  then have v: "ranked_sources normalizedCity [?a, ?e] = []
         \<or> provider (hd (ranked_sources normalizedCity [?a, ?e])) = fastly"
    by simp
  show ?thesis
    using lookup_defensive_branch [OF s c v, of example_region example_normalize] r
    by simp
qed

section \<open>Ties in the vote\<close>

text \<open>
  C1 at an input where it fails. ip2location reports Paris and ipmap reports a city whose
  \<open>normalizedCity\<close> is \<open>1770\<close>; the other providers fail. Both groups have one member, and
  ip2location has the higher priority. The key \<open>1770\<close> is an array index, so
  \<open>Object.values\<close> lists its group before the group of \<open>paris\<close>; the sort keeps this order and
  the candidate of ipmap wins.
\<close>

theorem bestMatch_tie_array_index_key:
  "isArrayIndex ''1770''
   \<and> ranked_sources normalizedCity
        [withProvider ip2location (example_location ''FR'' None ''Paris'' ''paris'' 1 ''a''),
         withProvider ipmap (example_location ''AU'' None ''1770'' ''1770'' 2 ''b'')]
     = [withProvider ipmap (example_location ''AU'' None ''1770'' ''1770'' 2 ''b''),
        withProvider ip2location (example_location ''FR'' None ''Paris'' ''paris'' 1 ''a'')]
   \<and> lookup_settled example_allowlist example_region example_normalize ''131.255.7.26''
        (Inr \<lparr>location = example_location ''FR'' None ''Paris'' ''paris'' 1 ''a'', isProxy = False\<rparr>)
        (Inr (example_location ''AU'' None ''1770'' ''1770'' 2 ''b'')) failed failed failed
     = Inr \<lparr>continent = ''XX'', country = ''AU'', state = None, city = ''1770'',
            normalizedCity = ''1770'', asn = 2, latitude = 1, longitude = 2,
            network = ''b'', normalizedNetwork = ''b'',
            region = ''Region of AU'', normalizedRegion = ''normalized Region of AU''\<rparr>"
  by code_simp

text \<open>
  What holds of ties: when no key of a candidate that takes part in the vote is an array
  index, the winner of the vote is the first candidate, in the order of the providers'
  priority, whose group has the largest size \<open>M\<close>. Among groups of equal largest size, the
  group of the candidate of highest priority wins.
\<close>

lemma ranked_sources_tie_break:
  assumes noidx: "\<forall>s\<in>set P. \<not> isArrayIndex (f s)"
    and P: "P = filter (\<lambda>s. f s \<noteq> []) xs"
    and ne: "P \<noteq> []"
    and maxM: "\<forall>s\<in>set P. length (filter (\<lambda>t. f t = f s) P) \<le> M"
    and hasM: "\<exists>s\<in>set P. length (filter (\<lambda>t. f t = f s) P) = M"
  shows "hd (ranked_sources f xs) = hd (filter (\<lambda>s. length (filter (\<lambda>t. f t = f s) P) = M) P)"
proof -
  let ?K = "first_seen (map f P)"
  let ?grp = "\<lambda>k. filter (\<lambda>x. f x = k) P"
  let ?G = "map ?grp ?K"
  let ?Q = "\<lambda>k. length (?grp k) = M"
  have ov: "Object_values (groupBy f P) = ?G"
  proof -
    have "\<forall>p\<in>set (groupBy f P). \<not> isArrayIndex (fst p)"
      using noidx by (auto simp: groupBy_first_seen)
    then have "Object_values (groupBy f P) = map snd (groupBy f P)"
      by (rule Object_values_no_index)
    then show ?thesis by (simp add: groupBy_first_seen comp_def)
  qed
  have Gne: "?G \<noteq> []" using ne by simp
  let ?S = "sortByLengthDesc ?G"
  have r: "ranked_sources f xs = concat ?S"
    by (simp add: ranked_sources_def P [symmetric] ov)
  have hin: "hd ?S \<in> set ?G" by (rule hd_sortByLengthDesc(1) [OF Gne])
  have hmax: "length g \<le> length (hd ?S)" if "g \<in> set ?G" for g
    using that by (rule hd_sortByLengthDesc(2) [OF Gne])
  have lenM: "length (hd ?S) = M"
  proof (rule antisym)
    from hin obtain k where k: "k \<in> set (map f P)" "hd ?S = ?grp k" by auto
    then obtain s where "s \<in> set P" "f s = k" by auto
    with maxM k(2) show "length (hd ?S) \<le> M" by auto
    from hasM obtain s where s: "s \<in> set P" "length (?grp (f s)) = M" by blast
    then have "?grp (f s) \<in> set ?G" by auto
    from hmax [OF this] s(2) show "M \<le> length (hd ?S)" by simp
  qed
  have "hd ?S = hd (filter (\<lambda>g. - int (length g) = - int (length (hd ?S))) ?G)"
    unfolding sortByLengthDesc_def by (rule hd_sort_key_stable [OF Gne])
  also have "\<dots> = hd (filter (\<lambda>g. length g = M) ?G)"
    by (simp add: lenM)
  also have "filter (\<lambda>g. length g = M) ?G = map ?grp (filter ?Q ?K)"
    by (simp add: filter_map comp_def)
  finally have hS: "hd ?S = hd (map ?grp (filter ?Q ?K))" .
  have fK: "filter ?Q ?K = first_seen (map f (filter (\<lambda>s. ?Q (f s)) P))"
    by (simp add: first_seen_filter [symmetric] filter_map comp_def)
  have Fne: "filter (\<lambda>s. ?Q (f s)) P \<noteq> []"
    using hasM by (auto simp: filter_empty_conv)
  let ?s = "hd (filter (\<lambda>s. ?Q (f s)) P)"
  have "hd (filter ?Q ?K) = f ?s"
    unfolding fK using Fne by (simp add: hd_first_seen hd_map)
  moreover have "filter ?Q ?K \<noteq> []" unfolding fK using Fne by simp
  ultimately have "hd ?S = ?grp (f ?s)"
    unfolding hS by (simp add: hd_map)
  moreover have "hd (?grp (f ?s)) = ?s"
    by (rule hd_filter_same_key [where Q = "?Q" and f = f and P = P, OF Fne])
  moreover have "?s \<in> set P" using Fne by (metis filter_is_subset hd_in_set subsetD)
  then have "?grp (f ?s) \<noteq> []" by (auto simp: filter_empty_conv)
  moreover have "?S \<noteq> []" using Gne by simp
  ultimately have "hd (concat ?S) = ?s" by (simp add: hd_concat)
  with r show ?thesis by simp
qed

section \<open>The majority rule\<close>

text \<open>
  C2. Let the results pass the VPN gate and the test on the cities. If more than half of
  the candidates report the same non-empty \<open>normalizedCity\<close>, the vote has a winner, the
  winner has this \<open>normalizedCity\<close>, and so has every result that \<open>lookup\<close> returns;
  which providers form the majority plays no role. When the majority is counted among
  the candidates that take part in the vote (those with a non-empty \<open>normalizedCity\<close>),
  every winner of the vote and every result of \<open>lookup\<close> has the \<open>normalizedCity\<close> of the
  majority.
\<close>

theorem lookup_majority:
  assumes gate: "settled_results wl addr rA rB rC rD rE = Inr results"
    and step4: "\<not> (length (filter (\<lambda>s. city s \<noteq> []) results) = 0
            \<or> (length (filter (\<lambda>s. city s \<noteq> []) results) = 1
                 \<and> provider (hd (filter (\<lambda>s. city s \<noteq> []) results)) = fastly))"
  shows "(c \<noteq> [] \<and> length results < 2 * length (filter (\<lambda>s. normalizedCity s = c) results)
            \<longrightarrow> (\<exists>w r. bestMatch ''normalizedCity'' normalizedCity results = Inr (w, r)
                    \<and> normalizedCity w = c)
                \<and> (\<forall>res. lookup_settled wl reg nrm addr rA rB rC rD rE = Inr res
                      \<longrightarrow> normalizedCity res = c))
       \<and> (length (filter (\<lambda>s. normalizedCity s \<noteq> []) results)
            < 2 * length (filter (\<lambda>s. normalizedCity s = c)
                            (filter (\<lambda>s. normalizedCity s \<noteq> []) results))
            \<longrightarrow> (\<forall>w r. bestMatch ''normalizedCity'' normalizedCity results = Inr (w, r)
                    \<longrightarrow> normalizedCity w = c)
                \<and> (\<forall>res. lookup_settled wl reg nrm addr rA rB rC rD rE = Inr res
                      \<longrightarrow> normalizedCity res = c))"
proof -
  let ?P = "filter (\<lambda>s. normalizedCity s \<noteq> []) results"
  let ?G = "filter (\<lambda>s. normalizedCity s = c) ?P"
  have eq: "lookup_settled wl reg nrm addr rA rB rC rD rE = resolve reg nrm addr results"
    using gate by (simp add: lookup_settled_def)
  have part2: "(\<forall>w r. bestMatch ''normalizedCity'' normalizedCity results = Inr (w, r)
                    \<longrightarrow> normalizedCity w = c)
                \<and> (\<forall>res. lookup_settled wl reg nrm addr rA rB rC rD rE = Inr res
                      \<longrightarrow> normalizedCity res = c)"
    if maj: "length ?P < 2 * length ?G"
  proof (intro conjI allI impI)
    fix w r assume "bestMatch ''normalizedCity'' normalizedCity results = Inr (w, r)"
    then show "normalizedCity w = c" by (rule vote_winner_of_majority [OF maj])
  next
    fix res assume "lookup_settled wl reg nrm addr rA rB rC rD rE = Inr res"
    then have "resolve reg nrm addr results = Inr res" by (simp add: eq)
    from resolve_Inr [OF this] obtain w r where
      b: "bestMatch ''normalizedCity'' normalizedCity results = Inr (w, r)"
      and n: "normalizedCity res = normalizedCity w"
      by fastforce
    from vote_winner_of_majority [OF maj b] n show "normalizedCity res = c" by simp
  qed
  have part1: "\<exists>w r. bestMatch ''normalizedCity'' normalizedCity results = Inr (w, r) \<and> normalizedCity w = c"
    and maj': "length ?P < 2 * length ?G"
    if c: "c \<noteq> []" and maj: "length results < 2 * length (filter (\<lambda>s. normalizedCity s = c) results)"
  proof -
    have G: "?G = filter (\<lambda>s. normalizedCity s = c) results"
      using c by (auto intro: filter_cong)
    have GL: "length ?G = length (filter (\<lambda>s. normalizedCity s = c) results)"
      using G by (rule arg_cong)
    have "length ?P \<le> length results" by simp
    with maj GL show majP: "length ?P < 2 * length ?G" by linarith
    have rk: "ranked_sources normalizedCity results \<noteq> []"
      by (rule ranked_majority(1) [where P = "?P" and c = c, OF refl majP])
    have rh: "hd (ranked_sources normalizedCity results) = hd ?G"
      by (rule ranked_majority(2) [where P = "?P" and c = c, OF refl majP])
    obtain pre post where pp: "results = pre @ post" "\<forall>x\<in>set pre. provider x \<noteq> fastly"
        "length post \<le> 1"
      using results_fastly_last [of rA rB rC rD rE] settled_results_Inr [OF gate] by blast
    have "provider (hd (filter (\<lambda>s. normalizedCity s = c) results)) \<noteq> fastly"
      by (rule majority_not_fastly [OF pp step4 maj])
    with G have notE: "provider (hd ?G) \<noteq> fastly" by simp
    let ?r = "ranked_sources normalizedCity results"
    have bm: "bestMatch ''normalizedCity'' normalizedCity results
                = Inr (location_info.truncate (hd ?r), ?r)"
      using rk rh notE by (simp add: bestMatch_cases)
    from vote_winner_of_majority [OF majP bm] bm
    show "\<exists>w r. bestMatch ''normalizedCity'' normalizedCity results = Inr (w, r)
        \<and> normalizedCity w = c"
      by blast
  qed
  show ?thesis
  proof (intro conjI impI)
    assume h: "c \<noteq> [] \<and> length results < 2 * length (filter (\<lambda>s. normalizedCity s = c) results)"
    then have c: "c \<noteq> []"
      and m: "length results < 2 * length (filter (\<lambda>s. normalizedCity s = c) results)"
      by simp_all
    show "\<exists>w r. bestMatch ''normalizedCity'' normalizedCity results = Inr (w, r) \<and> normalizedCity w = c"
      by (rule part1 [OF c m])
    show "\<forall>res. lookup_settled wl reg nrm addr rA rB rC rD rE = Inr res \<longrightarrow> normalizedCity res = c"
      using part2 [OF maj' [OF c m]] by (rule conjunct2)
  next
    assume m: "length ?P < 2 * length ?G"
    show "\<forall>w r. bestMatch ''normalizedCity'' normalizedCity results = Inr (w, r) \<longrightarrow> normalizedCity w = c"
      using part2 [OF m] by (rule conjunct1)
    show "\<forall>res. lookup_settled wl reg nrm addr rA rB rC rD rE = Inr res \<longrightarrow> normalizedCity res = c"
      using part2 [OF m] by (rule conjunct2)
  qed
qed
text \<open>
  maxmind, ipinfo and fastly report Buenos Aires, ip2location and ipmap report Dallas:
  three of five. Then: ip2location, ipmap and maxmind report no city at all, ipinfo and
  fastly report Dallas: two of the two candidates that take part in the vote.
\<close>

theorem lookup_majority_witness:
  "(\<exists>w r. bestMatch ''normalizedCity'' normalizedCity
        [withProvider ip2location (dallas 20001 ''constant''), withProvider ipmap (dallas 0 []),
         withProvider maxmind (buenosAires 61003 ''interbs''),
         withProvider ipinfo (buenosAires 61004 ''baehost''),
         withProvider fastly (buenosAires 61005 ''interbs'')] = Inr (w, r)
      \<and> normalizedCity w = ''buenos aires'')
   \<and> (\<exists>res. lookup_settled example_allowlist example_region example_normalize ''131.255.7.26''
        (Inr \<lparr>location = dallas 20001 ''constant'', isProxy = False\<rparr>) (Inr (dallas 0 []))
        (Inr (buenosAires 61003 ''interbs'')) (Inr (buenosAires 61004 ''baehost''))
        (Inr (buenosAires 61005 ''interbs'')) = Inr res
      \<and> normalizedCity res = ''buenos aires'')
   \<and> (\<exists>res. lookup_settled example_allowlist example_region example_normalize ''131.255.7.26''
        (Inr \<lparr>location = example_location ''US'' None [] [] 20001 ''constant'', isProxy = False\<rparr>)
        (Inr (example_location ''US'' None [] [] 0 []))
        (Inr (example_location ''US'' None [] [] 20003 ''psychz''))
        (Inr (dallas 20004 ''psychz'')) (Inr (dallas 20005 ''psychz'')) = Inr res
      \<and> normalizedCity res = ''dallas'')"
proof -
  let ?R1 = "[withProvider ip2location (dallas 20001 ''constant''), withProvider ipmap (dallas 0 []),
         withProvider maxmind (buenosAires 61003 ''interbs''),
         withProvider ipinfo (buenosAires 61004 ''baehost''),
         withProvider fastly (buenosAires 61005 ''interbs'')]"
  let ?R2 = "[withProvider ip2location (example_location ''US'' None [] [] 20001 ''constant''),
         withProvider ipmap (example_location ''US'' None [] [] 0 []),
         withProvider maxmind (example_location ''US'' None [] [] 20003 ''psychz''),
         withProvider ipinfo (dallas 20004 ''psychz''), withProvider fastly (dallas 20005 ''psychz'')]"
  have s1: "settled_results example_allowlist ''131.255.7.26''
        (Inr \<lparr>location = dallas 20001 ''constant'', isProxy = False\<rparr>) (Inr (dallas 0 []))
        (Inr (buenosAires 61003 ''interbs'')) (Inr (buenosAires 61004 ''baehost''))
        (Inr (buenosAires 61005 ''interbs'')) = Inr ?R1"
    by (simp add: settled_results_def fulfilled_def)
  have s2: "settled_results example_allowlist ''131.255.7.26''
        (Inr \<lparr>location = example_location ''US'' None [] [] 20001 ''constant'', isProxy = False\<rparr>)
        (Inr (example_location ''US'' None [] [] 0 []))
        (Inr (example_location ''US'' None [] [] 20003 ''psychz''))
        (Inr (dallas 20004 ''psychz'')) (Inr (dallas 20005 ''psychz'')) = Inr ?R2"
    by (simp add: settled_results_def fulfilled_def)
  have c1: "\<not> (length (filter (\<lambda>s. city s \<noteq> []) ?R1) = 0
            \<or> (length (filter (\<lambda>s. city s \<noteq> []) ?R1) = 1
                 \<and> provider (hd (filter (\<lambda>s. city s \<noteq> []) ?R1)) = fastly))"
    by (simp add: example_defs)
  have c2: "\<not> (length (filter (\<lambda>s. city s \<noteq> []) ?R2) = 0
            \<or> (length (filter (\<lambda>s. city s \<noteq> []) ?R2) = 1
                 \<and> provider (hd (filter (\<lambda>s. city s \<noteq> []) ?R2)) = fastly))"
    by (simp add: example_defs)
  have m1: "''buenos aires'' \<noteq> []
        \<and> length ?R1 < 2 * length (filter (\<lambda>s. normalizedCity s = ''buenos aires'') ?R1)"
    by (simp add: example_defs)
  have m2: "length (filter (\<lambda>s. normalizedCity s \<noteq> []) ?R2)
            < 2 * length (filter (\<lambda>s. normalizedCity s = ''dallas'')
                            (filter (\<lambda>s. normalizedCity s \<noteq> []) ?R2))"
    by (simp add: example_defs)
  have e1: "lookup_settled example_allowlist example_region example_normalize ''131.255.7.26''
        (Inr \<lparr>location = dallas 20001 ''constant'', isProxy = False\<rparr>) (Inr (dallas 0 []))
        (Inr (buenosAires 61003 ''interbs'')) (Inr (buenosAires 61004 ''baehost''))
        (Inr (buenosAires 61005 ''interbs''))
     = Inr \<lparr>continent = ''XX'', country = ''AR'', state = None, city = ''Buenos Aires'',
            normalizedCity = ''buenos aires'', asn = 61003, latitude = 1, longitude = 2,
            network = ''interbs'', normalizedNetwork = ''interbs'',
            region = ''Region of AR'', normalizedRegion = ''normalized Region of AR''\<rparr>"
    by code_simp
  have e2: "lookup_settled example_allowlist example_region example_normalize ''131.255.7.26''
        (Inr \<lparr>location = example_location ''US'' None [] [] 20001 ''constant'', isProxy = False\<rparr>)
        (Inr (example_location ''US'' None [] [] 0 []))
        (Inr (example_location ''US'' None [] [] 20003 ''psychz''))
        (Inr (dallas 20004 ''psychz'')) (Inr (dallas 20005 ''psychz''))
     = Inr \<lparr>continent = ''XX'', country = ''US'', state = Some ''TX'', city = ''Dallas'',
            normalizedCity = ''dallas'', asn = 20004, latitude = 1, longitude = 2,
            network = ''psychz'', normalizedNetwork = ''psychz'',
            region = ''Region of US'', normalizedRegion = ''normalized Region of US''\<rparr>"
    by code_simp
  note t1 = lookup_majority [OF s1 c1, of "''buenos aires''" example_region example_normalize,
      THEN conjunct1, THEN mp, OF m1]
  note t2 = lookup_majority [OF s2 c2, of "''dallas''" example_region example_normalize,
      THEN conjunct2, THEN mp, OF m2]
  from t1 [THEN conjunct2, THEN spec, THEN mp, OF e1] e1
  have r1: "\<exists>res. lookup_settled example_allowlist example_region example_normalize ''131.255.7.26''
        (Inr \<lparr>location = dallas 20001 ''constant'', isProxy = False\<rparr>) (Inr (dallas 0 []))
        (Inr (buenosAires 61003 ''interbs'')) (Inr (buenosAires 61004 ''baehost''))
        (Inr (buenosAires 61005 ''interbs'')) = Inr res
      \<and> normalizedCity res = ''buenos aires''"
    by (intro exI conjI)
  from t2 [THEN conjunct2, THEN spec, THEN mp, OF e2] e2
  have r2: "\<exists>res. lookup_settled example_allowlist example_region example_normalize ''131.255.7.26''
        (Inr \<lparr>location = example_location ''US'' None [] [] 20001 ''constant'', isProxy = False\<rparr>)
        (Inr (example_location ''US'' None [] [] 0 []))
        (Inr (example_location ''US'' None [] [] 20003 ''psychz''))
        (Inr (dallas 20004 ''psychz'')) (Inr (dallas 20005 ''psychz'')) = Inr res
      \<and> normalizedCity res = ''dallas''"
    by (intro exI conjI)
  from t1 [THEN conjunct1] r1 r2 show ?thesis
    by (intro conjI)
qed

section \<open>What a successful \<open>lookup\<close> returns\<close>

text \<open>
  C8, as the specification states it, fails. ip2location fails; ipmap reports Dallas in the
  country \<open>US\<close> with no state and no network (answers of this form are produced by the
  ipmap provider, which leaves the state undefined when the service sends no state code,
  and never sets a network); maxmind reports Dallas with a network. \<open>lookup\<close> succeeds:
  ipmap wins the vote, the network is the one of maxmind, and the result has the country
  \<open>US\<close> and no state.
\<close>

theorem lookup_result_populated_counterexample:
  "lookup_settled example_allowlist example_region example_normalize ''131.255.7.26''
       failed (Inr (example_location ''US'' None ''Dallas'' ''dallas'' 0 []))
       (Inr (dallas 20003 ''psychz'')) failed failed
     = Inr \<lparr>continent = ''XX'', country = ''US'', state = None, city = ''Dallas'',
            normalizedCity = ''dallas'', asn = 20003, latitude = 1, longitude = 2,
            network = ''psychz'', normalizedNetwork = ''psychz'',
            region = ''Region of US'', normalizedRegion = ''normalized Region of US''\<rparr>"
  by code_simp

text \<open>
  C8, amended. Every result that \<open>lookup\<close> returns is assembled as follows. The vote
  \<open>bestMatch\<close> over the candidates succeeds with the ranked sequence \<open>r\<close>, and its winner is
  the first element \<open>w\<close> of \<open>r\<close>, a candidate that is not from fastly. The fields
  \<open>continent\<close>, \<open>country\<close>, \<open>state\<close>, \<open>city\<close>, \<open>normalizedCity\<close>, \<open>latitude\<close> and \<open>longitude\<close>
  are those of the winner \<open>w\<close>; \<open>asn\<close>, \<open>network\<close> and \<open>normalizedNetwork\<close> are what
  \<open>matchNetwork\<close> returns for the winner and \<open>r\<close>, and they are those of a candidate \<open>d\<close> of
  \<open>r\<close> with the \<open>normalizedCity\<close> of \<open>w\<close>; \<open>region\<close> is the region of the country of \<open>w\<close> and
  \<open>normalizedRegion\<close> its normalized form. The \<open>normalizedCity\<close> and the \<open>network\<close> of the
  result are not empty and its \<open>asn\<close> is not zero. The other fields are copied as the
  candidates have them. Every \<open>lookup\<close> returns such a value or fails (its outcome is an
  error or a result).
\<close>

theorem lookup_result_populated:
  assumes "lookup_settled wl reg nrm addr rA rB rC rD rE = Inr res"
  shows "\<exists>w r d. bestMatch ''normalizedCity'' normalizedCity
                     (List.map_filter id (fulfilled rA rB rC rD rE))
                   = Inr (location_info.truncate w, r)
           \<and> r \<noteq> [] \<and> w = hd r
           \<and> matchNetwork (location_info.truncate w) r
               = Some \<lparr>ni_network = network res, ni_normalizedNetwork = normalizedNetwork res,
                        ni_asn = asn res\<rparr>
           \<and> d \<in> set r
           \<and> w \<in> set (List.map_filter id (fulfilled rA rB rC rD rE))
           \<and> d \<in> set (List.map_filter id (fulfilled rA rB rC rD rE))
           \<and> provider w \<noteq> fastly
           \<and> continent res = continent w \<and> country res = country w \<and> state res = state w
           \<and> city res = city w \<and> normalizedCity res = normalizedCity w
           \<and> latitude res = latitude w \<and> longitude res = longitude w
           \<and> normalizedCity d = normalizedCity w
           \<and> asn res = asn d \<and> network res = network d
           \<and> normalizedNetwork res = normalizedNetwork d
           \<and> region res = reg (country w) \<and> normalizedRegion res = nrm (reg (country w))
           \<and> normalizedCity res \<noteq> [] \<and> asn res \<noteq> 0 \<and> network res \<noteq> []"
proof -
  let ?results = "List.map_filter id (fulfilled rA rB rC rD rE)"
  have gate: "settled_results wl addr rA rB rC rD rE = Inr ?results"
    using assms by (auto simp: lookup_settled_def settled_results_cases split: if_splits)
  then have "resolve reg nrm addr ?results = Inr res"
    using assms by (simp add: lookup_settled_def)
  from resolve_Inr [OF this] obtain w r n where
    b: "bestMatch ''normalizedCity'' normalizedCity ?results = Inr (w, r)"
    and m: "matchNetwork w r = Some n"
    and res: "res = \<lparr> continent = continent w, country = country w, state = state w, city = city w,
                normalizedCity = normalizedCity w, asn = ni_asn n, latitude = latitude w,
                longitude = longitude w, network = ni_network n,
                normalizedNetwork = ni_normalizedNetwork n,
                region = reg (country w), normalizedRegion = nrm (reg (country w)) \<rparr>"
    by blast
  note bm = bestMatch_Inr [OF b]
  have sub: "set r = {x \<in> set ?results. normalizedCity x \<noteq> []}"
    unfolding bm(1) by (rule set_ranked_sources)
  have hr: "hd r \<in> set r" using bm(2) by simp
  from matchNetwork_Some [OF m bm(2) bm(4)] obtain d where
    d: "d \<in> set r" "normalizedCity d = normalizedCity w" "asn d \<noteq> 0" "network d \<noteq> []"
      "ni_asn n = asn d" "ni_network n = network d" "ni_normalizedNetwork n = normalizedNetwork d"
    by blast
  have w: "normalizedCity w = normalizedCity (hd r)" "continent w = continent (hd r)"
    "country w = country (hd r)" "state w = state (hd r)" "city w = city (hd r)"
    "latitude w = latitude (hd r)" "longitude w = longitude (hd r)"
    unfolding bm(4) by simp_all
  have f: "continent res = continent w" "country res = country w" "state res = state w"
    "city res = city w" "normalizedCity res = normalizedCity w" "latitude res = latitude w"
    "longitude res = longitude w" "asn res = ni_asn n" "network res = ni_network n"
    "normalizedNetwork res = ni_normalizedNetwork n" "region res = reg (country w)"
    "normalizedRegion res = nrm (reg (country w))"
    unfolding res by simp_all
  have ne: "normalizedCity (hd r) \<noteq> []" using hr sub by blast
  have in1: "hd r \<in> set ?results" using hr sub by blast
  have in2: "d \<in> set ?results" using d(1) sub by blast
  have b': "bestMatch ''normalizedCity'' normalizedCity ?results
              = Inr (location_info.truncate (hd r), r)"
    using b bm(4) by simp
  have n: "n = \<lparr>ni_network = network res, ni_normalizedNetwork = normalizedNetwork res,
                ni_asn = asn res\<rparr>"
    using f(8,9,10) by simp
  have m': "matchNetwork (location_info.truncate (hd r)) r
              = Some \<lparr>ni_network = network res, ni_normalizedNetwork = normalizedNetwork res,
                       ni_asn = asn res\<rparr>"
    using m n bm(4) by simp
  have rest: "hd r \<in> set ?results \<and> d \<in> set ?results \<and> provider (hd r) \<noteq> fastly
           \<and> continent res = continent (hd r) \<and> country res = country (hd r)
           \<and> state res = state (hd r) \<and> city res = city (hd r)
           \<and> normalizedCity res = normalizedCity (hd r)
           \<and> latitude res = latitude (hd r) \<and> longitude res = longitude (hd r)
           \<and> normalizedCity d = normalizedCity (hd r)
           \<and> asn res = asn d \<and> network res = network d
           \<and> normalizedNetwork res = normalizedNetwork d
           \<and> region res = reg (country (hd r)) \<and> normalizedRegion res = nrm (reg (country (hd r)))
           \<and> normalizedCity res \<noteq> [] \<and> asn res \<noteq> 0 \<and> network res \<noteq> []"
    using in1 in2 bm(3) f w d ne by simp
  show ?thesis
    apply (rule exI [of _ "hd r"])
    apply (rule exI [of _ r])
    apply (rule exI [of _ d])
    apply (rule conjI [OF b' conjI [OF bm(2) conjI [OF refl conjI [OF m' conjI [OF d(1) rest]]]]])
    done
qed
text \<open>The input of the counterexample: the checked fields are present.\<close>

theorem lookup_result_populated_witness:
  "\<exists>res. lookup_settled example_allowlist example_region example_normalize ''131.255.7.26''
       failed (Inr (example_location ''US'' None ''Dallas'' ''dallas'' 0 []))
       (Inr (dallas 20003 ''psychz'')) failed failed = Inr res
     \<and> normalizedCity res \<noteq> [] \<and> asn res \<noteq> 0 \<and> network res \<noteq> []"
proof -
  let ?R = "\<lparr>continent = ''XX'', country = ''US'', state = None, city = ''Dallas'',
            normalizedCity = ''dallas'', asn = 20003, latitude = 1, longitude = 2,
            network = ''psychz'', normalizedNetwork = ''psychz'',
            region = ''Region of US'', normalizedRegion = ''normalized Region of US''\<rparr>"
  have e: "lookup_settled example_allowlist example_region example_normalize ''131.255.7.26''
       failed (Inr (example_location ''US'' None ''Dallas'' ''dallas'' 0 []))
       (Inr (dallas 20003 ''psychz'')) failed failed = Inr ?R"
    by code_simp
  from lookup_result_populated [OF e]
  have p: "normalizedCity ?R \<noteq> [] \<and> asn ?R \<noteq> 0 \<and> network ?R \<noteq> []"
    by (elim exE conjE) (intro conjI; assumption)
  from e p show ?thesis
    by (intro exI [of _ ?R] conjI) (elim conjE; assumption)+
qed

section \<open>The cache never fails a query\<close>

text \<open>
  C6. A failure of the cache backend does not propagate out of \<open>lookupWithCache\<close>: when
  the call rejects, it rejects with the error \<open>fn\<close> rejected with.
  When \<open>cache.get\<close> rejects, \<open>fn\<close> is called and the call settles as \<open>fn\<close> does; the value
  and the backend's state are those of the same call on a backend that differs only in
  that its \<open>get\<close> reports a miss. When \<open>get\<close> rejects or misses, \<open>fn\<close> fulfils with a value
  and \<open>cache.set\<close> rejects, the call fulfils with this value. With caches whose every
  operation rejects, \<open>lookup\<close> returns what the five providers' outcomes determine, which
  is also what it returns with a cache that stores nothing.
\<close>

theorem lookupWithCache_fail_open:
  "(\<forall>e. fst (lookupWithCache truthy (cache :: ('c, 't) cache_interface) ttl key fn w) = Inl e
         \<longrightarrow> fn = Inl e)
   \<and> (\<forall>e c. cache_get cache key (backend w) = (Inl e, c) \<longrightarrow>
       fst (lookupWithCache truthy cache ttl key fn w) = fn
       \<and> FnCalled key \<in> set (trace (snd (lookupWithCache truthy cache ttl key fn w)))
       \<and> (\<forall>cache'. cache_set cache' = cache_set cache
                     \<and> cache_get cache' key (backend w) = (Inr None, c) \<longrightarrow>
             fst (lookupWithCache truthy cache' ttl key fn w)
               = fst (lookupWithCache truthy cache ttl key fn w)
             \<and> backend (snd (lookupWithCache truthy cache' ttl key fn w))
               = backend (snd (lookupWithCache truthy cache ttl key fn w))))
   \<and> ((isl (fst (cache_get cache key (backend w))) \<or> fst (cache_get cache key (backend w)) = Inr None)
        \<and> isl (fst (cache_set cache key info ttl (snd (cache_get cache key (backend w))))) \<longrightarrow>
       fst (lookupWithCache truthy cache ttl key (Inr info) w) = Inr info)
   \<and> (always_rejects cacheB \<and> always_rejects cacheL \<longrightarrow>
       fst (lookup wl reg nrm cacheB cacheL ttl ps addr w0)
         = lookup_settled wl reg nrm addr (ip2LocationLookup ps addr) (ipmapLookup ps addr)
             (maxmindLookup ps addr) (ipinfoLookup ps addr) (fastlyLookup ps addr)
       \<and> fst (lookup wl reg nrm cacheB cacheL ttl ps addr w0)
         = fst (lookup wl reg nrm NullCache NullCache ttl ps addr w0))"
proof (intro conjI allI impI)
  fix e assume "fst (lookupWithCache truthy cache ttl key fn w) = Inl e"
  then show "fn = Inl e" by (rule lookupWithCache_rejects_as_fn)
next
  fix e c assume g: "cache_get cache key (backend w) = (Inl e, c)"
  show "fst (lookupWithCache truthy cache ttl key fn w) = fn"
    by (simp add: lookupWithCache_get_rejects [OF g])
  show "FnCalled key \<in> set (trace (snd (lookupWithCache truthy cache ttl key fn w)))"
    unfolding lookupWithCache_get_rejects [OF g] by (rule trace_lookupWithCache_compute)
  fix cache' :: "('c, 't) cache_interface"
  assume h: "cache_set cache' = cache_set cache \<and> cache_get cache' key (backend w) = (Inr None, c)"
  then have m: "cache_get cache' key (backend w) = (Inr None, c)"
    and s: "cache_set cache' = cache_set cache" by simp_all
  show "fst (lookupWithCache truthy cache' ttl key fn w)
          = fst (lookupWithCache truthy cache ttl key fn w)"
    by (simp add: lookupWithCache_get_rejects [OF g] lookupWithCache_miss [OF m])
  show "backend (snd (lookupWithCache truthy cache' ttl key fn w))
          = backend (snd (lookupWithCache truthy cache ttl key fn w))"
    unfolding lookupWithCache_get_rejects [OF g] lookupWithCache_miss [OF m]
    by (simp add: lookupWithCache_compute_def s Let_def split: sum.splits prod.splits)
next
  assume h: "(isl (fst (cache_get cache key (backend w))) \<or> fst (cache_get cache key (backend w)) = Inr None)
        \<and> isl (fst (cache_set cache key info ttl (snd (cache_get cache key (backend w)))))"
  obtain g c where p: "cache_get cache key (backend w) = (g, c)" by (cases "cache_get cache key (backend w)")
  from h p have "isl g \<or> g = Inr None" by simp
  then show "fst (lookupWithCache truthy cache ttl key (Inr info) w) = Inr info"
  proof
    assume "isl g"
    then obtain e where "g = Inl e" by (cases g) auto
    with p show ?thesis by (simp add: lookupWithCache_get_rejects)
  next
    assume "g = Inr None"
    with p show ?thesis by (simp add: lookupWithCache_miss)
  qed
next
  assume h: "always_rejects cacheB \<and> always_rejects cacheL"
  then have n: "never_hits cacheB" "never_hits cacheL"
    by (simp_all add: always_rejects_never_hits)
  show 1: "fst (lookup wl reg nrm cacheB cacheL ttl ps addr w0)
         = lookup_settled wl reg nrm addr (ip2LocationLookup ps addr) (ipmapLookup ps addr)
             (maxmindLookup ps addr) (ipinfoLookup ps addr) (fastlyLookup ps addr)"
    by (rule lookup_never_hits [OF n])
  show "fst (lookup wl reg nrm cacheB cacheL ttl ps addr w0)
         = fst (lookup wl reg nrm NullCache NullCache ttl ps addr w0)"
    unfolding 1 by (simp add: lookup_never_hits [OF never_hits_NullCache never_hits_NullCache])
qed

text \<open>
  The cache of the unit tests whose operations reject: a wrapped query that fails, one
  that succeeds, and a \<open>lookup\<close> for which ip2location and ipmap report Dallas.
\<close>

theorem lookupWithCache_fail_open_witness:
  "fst (lookupWithCache ToBoolean (BrokenCache :: (unit, unit jsval) cache_interface) 60
          ''geoip:ipmap:131.255.7.26'' failed \<lparr>backend = (), trace = []\<rparr>)
     = Inl (Error ''Response code 400 (Bad Request)'')
   \<and> fst (lookupWithCache ToBoolean (BrokenCache :: (unit, unit jsval) cache_interface) 60
          ''geoip:ipmap:131.255.7.26'' (Inr (JString ''fresh'')) \<lparr>backend = (), trace = []\<rparr>)
     = Inr (JString ''fresh'')
   \<and> FnCalled ''geoip:ipmap:131.255.7.26''
       \<in> set (trace (snd (lookupWithCache ToBoolean (BrokenCache :: (unit, unit jsval) cache_interface) 60
                  ''geoip:ipmap:131.255.7.26'' (Inr (JString ''fresh'')) \<lparr>backend = (), trace = []\<rparr>)))
   \<and> fst (lookupWithCache ToBoolean (NullCache :: (unit, unit jsval) cache_interface) 60
          ''geoip:ipmap:131.255.7.26'' (Inr (JString ''fresh'')) \<lparr>backend = (), trace = []\<rparr>)
     = fst (lookupWithCache ToBoolean (BrokenCache :: (unit, unit jsval) cache_interface) 60
          ''geoip:ipmap:131.255.7.26'' (Inr (JString ''fresh'')) \<lparr>backend = (), trace = []\<rparr>)
   \<and> fst (lookup example_allowlist example_region example_normalize
            (BrokenCache :: (unit, ip2location_bundled_response) cache_interface)
            (BrokenCache :: (unit, location_info) cache_interface) 60
            (example_providers (Inr \<lparr>location = dallas 20001 ''constant'', isProxy = False\<rparr>)
               (Inr (dallas 0 [])) failed failed failed)
            ''131.255.7.26'' \<lparr>backend = (), trace = []\<rparr>)
     = Inr \<lparr>continent = ''XX'', country = ''US'', state = Some ''TX'', city = ''Dallas'',
            normalizedCity = ''dallas'', asn = 20001, latitude = 1, longitude = 2,
            network = ''constant'', normalizedNetwork = ''constant'',
            region = ''Region of US'', normalizedRegion = ''normalized Region of US''\<rparr>"
proof -
  let ?B = "BrokenCache :: (unit, unit jsval) cache_interface"
  let ?N = "NullCache :: (unit, unit jsval) cache_interface"
  let ?BB = "BrokenCache :: (unit, ip2location_bundled_response) cache_interface"
  let ?BL = "BrokenCache :: (unit, location_info) cache_interface"
  let ?k = "''geoip:ipmap:131.255.7.26''"
  let ?w = "\<lparr>backend = (), trace = []\<rparr> :: unit world"
  let ?ps = "example_providers (Inr \<lparr>location = dallas 20001 ''constant'', isProxy = False\<rparr>)
               (Inr (dallas 0 [])) failed failed failed"
  note T = lookupWithCache_fail_open [where cache = ?B and key = ?k and w = ?w and truthy = ToBoolean
      and ttl = 60 and fn = "Inr (JString ''fresh'')" and info = "JString ''fresh''"
      and cacheB = ?BB and cacheL = ?BL and wl = example_allowlist and reg = example_region
      and nrm = example_normalize and ps = ?ps and addr = "''131.255.7.26''" and ?w0.0 = ?w]
  have g: "cache_get ?B ?k (backend ?w) = (Inl (Error ''get is broken''), ())"
    by (simp add: BrokenCache_def)
  note A = T [THEN conjunct2, THEN conjunct1, THEN spec, THEN spec, THEN mp, OF g]
  have r: "always_rejects ?BB \<and> always_rejects ?BL"
    by (simp add: always_rejects_BrokenCache)
  note C = T [THEN conjunct2, THEN conjunct2, THEN conjunct2, THEN mp, OF r, THEN conjunct1]
  have p: "ip2LocationLookup ?ps ''131.255.7.26'' = Inr \<lparr>location = dallas 20001 ''constant'', isProxy = False\<rparr>"
    "ipmapLookup ?ps ''131.255.7.26'' = Inr (dallas 0 [])"
    "maxmindLookup ?ps ''131.255.7.26'' = failed" "ipinfoLookup ?ps ''131.255.7.26'' = failed"
    "fastlyLookup ?ps ''131.255.7.26'' = failed"
    by (simp_all add: example_providers_def)
  have e: "lookup_settled example_allowlist example_region example_normalize ''131.255.7.26''
        (Inr \<lparr>location = dallas 20001 ''constant'', isProxy = False\<rparr>) (Inr (dallas 0 []))
        failed failed failed
     = Inr \<lparr>continent = ''XX'', country = ''US'', state = Some ''TX'', city = ''Dallas'',
            normalizedCity = ''dallas'', asn = 20001, latitude = 1, longitude = 2,
            network = ''constant'', normalizedNetwork = ''constant'',
            region = ''Region of US'', normalizedRegion = ''normalized Region of US''\<rparr>"
    by code_simp
  have m: "fst (lookupWithCache ToBoolean ?N 60 ?k (Inr (JString ''fresh'')) ?w) = Inr (JString ''fresh'')"
    by (simp add: lookupWithCache_never_hits [OF never_hits_NullCache])
  have x: "fst (lookupWithCache ToBoolean ?B 60 ?k failed ?w) = Inl (Error ''Response code 400 (Bad Request)'')"
    by (simp add: lookupWithCache_get_rejects [OF g] failed_def)
  note X = lookupWithCache_fail_open [where cache = ?B and key = ?k and w = ?w and truthy = ToBoolean
      and ttl = 60 and fn = failed, THEN conjunct1, THEN spec, THEN mp, OF x]
  show ?thesis
  proof (intro conjI)
    show "fst (lookupWithCache ToBoolean ?B 60 ?k failed ?w) = Inl (Error ''Response code 400 (Bad Request)'')"
      using x X by simp
    show "fst (lookupWithCache ToBoolean ?B 60 ?k (Inr (JString ''fresh'')) ?w) = Inr (JString ''fresh'')"
      by (rule A [THEN conjunct1])
    then show "fst (lookupWithCache ToBoolean ?N 60 ?k (Inr (JString ''fresh'')) ?w)
        = fst (lookupWithCache ToBoolean ?B 60 ?k (Inr (JString ''fresh'')) ?w)"
      using m by simp
    show "FnCalled ?k \<in> set (trace (snd (lookupWithCache ToBoolean ?B 60 ?k (Inr (JString ''fresh'')) ?w)))"
      by (rule A [THEN conjunct2, THEN conjunct1])
    show "fst (lookup example_allowlist example_region example_normalize ?BB ?BL 60 ?ps
            ''131.255.7.26'' ?w)
     = Inr \<lparr>continent = ''XX'', country = ''US'', state = Some ''TX'', city = ''Dallas'',
            normalizedCity = ''dallas'', asn = 20001, latitude = 1, longitude = 2,
            network = ''constant'', normalizedNetwork = ''constant'',
            region = ''Region of US'', normalizedRegion = ''normalized Region of US''\<rparr>"
      unfolding C p by (rule e)
  qed
qed

section \<open>The result is a function of the providers' outcomes\<close>

text \<open>
  C9. With the cache disregarded (no \<open>get\<close> yields a value), the outcome of \<open>lookup\<close> for an
  address is determined by the five providers' outcomes, the allowlist and the region
  table: two calls return the same outcome, whatever the two backends, their states, the
  traces so far and the \<open>ttl\<close>.
\<close>

theorem lookup_deterministic:
  assumes "never_hits cacheB1" "never_hits cacheL1" "never_hits cacheB2" "never_hits cacheL2"
  shows "fst (lookup wl reg nrm cacheB1 cacheL1 ttl1 ps addr w1)
           = fst (lookup wl reg nrm cacheB2 cacheL2 ttl2 ps addr w2)"
  by (simp add: lookup_never_hits [OF assms(1,2)] lookup_never_hits [OF assms(3,4)])

text \<open>One call with the cache whose operations reject, one with the cache that stores nothing.\<close>

theorem lookup_deterministic_witness:
  "never_hits (BrokenCache :: (unit, ip2location_bundled_response) cache_interface)
   \<and> never_hits (BrokenCache :: (unit, location_info) cache_interface)
   \<and> never_hits (NullCache :: (unit, ip2location_bundled_response) cache_interface)
   \<and> never_hits (NullCache :: (unit, location_info) cache_interface)
   \<and> fst (lookup example_allowlist example_region example_normalize
            (BrokenCache :: (unit, ip2location_bundled_response) cache_interface)
            (BrokenCache :: (unit, location_info) cache_interface) 60
            (example_providers failed (Inr (dallas 0 [])) (Inr (dallas 20003 ''psychz'')) failed failed)
            ''131.255.7.26'' \<lparr>backend = (), trace = []\<rparr>)
     = fst (lookup example_allowlist example_region example_normalize
            (NullCache :: (unit, ip2location_bundled_response) cache_interface)
            (NullCache :: (unit, location_info) cache_interface) 3600
            (example_providers failed (Inr (dallas 0 [])) (Inr (dallas 20003 ''psychz'')) failed failed)
            ''131.255.7.26'' \<lparr>backend = (), trace = [FnCalled ''earlier'']\<rparr>)"
proof -
  have b: "never_hits (BrokenCache :: (unit, ip2location_bundled_response) cache_interface)"
    "never_hits (BrokenCache :: (unit, location_info) cache_interface)"
    by (rule always_rejects_never_hits [OF always_rejects_BrokenCache])+
  have n: "never_hits (NullCache :: (unit, ip2location_bundled_response) cache_interface)"
    "never_hits (NullCache :: (unit, location_info) cache_interface)"
    by (rule never_hits_NullCache)+
  from b n lookup_deterministic [OF b n] show ?thesis
    by (intro conjI)
qed

section \<open>A cached value counts only if it is truthy\<close>

text \<open>
  C10. Let \<open>cache.get\<close> fulfil with a value \<open>v\<close>. The value is falsy exactly when it is
  \<open>undefined\<close>, \<open>null\<close>, \<open>false\<close>, \<open>0\<close> or the empty string. If \<open>v\<close> is falsy, the call is
  the call on a backend whose \<open>get\<close> reports a miss: \<open>fn\<close> is called, the call settles as
  \<open>fn\<close> does, and a value of \<open>fn\<close> is passed to \<open>cache.set\<close> for the key. If \<open>v\<close> is truthy,
  the call fulfils with \<open>v\<close>, the trace is unchanged (\<open>fn\<close> is not called) and \<open>cache.set\<close>
  is not called.
\<close>

theorem lookupWithCache_truthiness:
  assumes "cache_get cache key (backend w) = (Inr (Some v), c)"
  shows "(\<not> ToBoolean v \<longleftrightarrow> v \<in> {JUndefined, JNull, JBoolean False, JNumber 0, JString []})
     \<and> (\<not> ToBoolean v \<longrightarrow>
          fst (lookupWithCache ToBoolean cache ttl key fn w) = fn
          \<and> FnCalled key \<in> set (trace (snd (lookupWithCache ToBoolean cache ttl key fn w)))
          \<and> (\<forall>info. fn = Inr info \<longrightarrow>
                backend (snd (lookupWithCache ToBoolean cache ttl key fn w))
                  = snd (cache_set cache key info ttl c))
          \<and> (\<forall>cache'. cache_set cache' = cache_set cache
                       \<and> cache_get cache' key (backend w) = (Inr None, c) \<longrightarrow>
                lookupWithCache ToBoolean cache' ttl key fn w
                  = lookupWithCache ToBoolean cache ttl key fn w))
     \<and> (ToBoolean v \<longrightarrow> lookupWithCache ToBoolean cache ttl key fn w = (Inr v, w\<lparr>backend := c\<rparr>))"
proof (intro conjI allI impI)
  show "(\<not> ToBoolean v) = (v \<in> {JUndefined, JNull, JBoolean False, JNumber 0, JString []})"
    by (cases v) auto
next
  assume f: "\<not> ToBoolean v"
  have eq: "lookupWithCache ToBoolean cache ttl key fn w
              = lookupWithCache_compute cache ttl key fn (w\<lparr>backend := c\<rparr>)" for fn
    using f by (simp add: lookupWithCache_value [OF assms])
  show "fst (lookupWithCache ToBoolean cache ttl key fn w) = fn"
    by (simp add: eq)
  show "FnCalled key \<in> set (trace (snd (lookupWithCache ToBoolean cache ttl key fn w)))"
    unfolding eq by (rule trace_lookupWithCache_compute)
  show "backend (snd (lookupWithCache ToBoolean cache ttl key fn w))
          = snd (cache_set cache key info ttl c)" if "fn = Inr info" for info
    unfolding eq that by (simp add: backend_lookupWithCache_compute)
  show "lookupWithCache ToBoolean cache' ttl key fn w = lookupWithCache ToBoolean cache ttl key fn w"
    if "cache_set cache' = cache_set cache \<and> cache_get cache' key (backend w) = (Inr None, c)"
    for cache'
  proof -
    from that have m: "cache_get cache' key (backend w) = (Inr None, c)"
      and s: "cache_set cache' = cache_set cache" by simp_all
    show ?thesis
      unfolding eq lookupWithCache_miss [OF m] lookupWithCache_compute_def s
      by (rule refl)
  qed
next
  assume "ToBoolean v"
  then show "lookupWithCache ToBoolean cache ttl key fn w = (Inr v, w\<lparr>backend := c\<rparr>)"
    by (simp add: lookupWithCache_value [OF assms])
qed

text \<open>The in-memory backend holding \<open>0\<close> for the key, then holding a non-empty string.\<close>

theorem lookupWithCache_truthiness_witness:
  "fst (lookupWithCache ToBoolean MemoryCache 60 ''key'' (Inr (JString ''fresh''))
          \<lparr>backend = [''key'' \<mapsto> JNumber 0 :: unit jsval], trace = []\<rparr>)
     = Inr (JString ''fresh'')
   \<and> backend (snd (lookupWithCache ToBoolean MemoryCache 60 ''key'' (Inr (JString ''fresh''))
          \<lparr>backend = [''key'' \<mapsto> JNumber 0 :: unit jsval], trace = []\<rparr>)) ''key''
     = Some (JString ''fresh'')
   \<and> FnCalled ''key''
       \<in> set (trace (snd (lookupWithCache ToBoolean MemoryCache 60 ''key'' (Inr (JString ''fresh''))
          \<lparr>backend = [''key'' \<mapsto> JNumber 0 :: unit jsval], trace = []\<rparr>)))
   \<and> lookupWithCache ToBoolean MemoryCache 60 ''key'' (Inr (JString ''fresh''))
          \<lparr>backend = [''key'' \<mapsto> JString ''cached'' :: unit jsval], trace = []\<rparr>
     = (Inr (JString ''cached''),
        \<lparr>backend = [''key'' \<mapsto> JString ''cached'' :: unit jsval], trace = []\<rparr>)"
proof -
  let ?w0 = "\<lparr>backend = [''key'' \<mapsto> JNumber 0 :: unit jsval], trace = []\<rparr>"
  let ?w1 = "\<lparr>backend = [''key'' \<mapsto> JString ''cached'' :: unit jsval], trace = []\<rparr>"
  let ?fn = "Inr (JString ''fresh'') :: unit jsval settled"
  have g0: "cache_get MemoryCache ''key'' (backend ?w0)
              = (Inr (Some (JNumber 0)), [''key'' \<mapsto> JNumber 0])"
    by (simp add: MemoryCache_def)
  have g1: "cache_get MemoryCache ''key'' (backend ?w1)
              = (Inr (Some (JString ''cached'')), [''key'' \<mapsto> JString ''cached''])"
    by (simp add: MemoryCache_def)
  have f: "\<not> ToBoolean (JNumber 0 :: unit jsval)" by simp
  have t: "ToBoolean (JString ''cached'' :: unit jsval)" by simp
  note F = lookupWithCache_truthiness [OF g0, of 60 ?fn, THEN conjunct2, THEN conjunct1, THEN mp, OF f]
  note H = lookupWithCache_truthiness [OF g1, of 60 ?fn, THEN conjunct2, THEN conjunct2, THEN mp, OF t]
  have 1: "fst (lookupWithCache ToBoolean MemoryCache 60 ''key'' ?fn ?w0) = ?fn"
    by (rule F [THEN conjunct1])
  have 2: "FnCalled ''key'' \<in> set (trace (snd (lookupWithCache ToBoolean MemoryCache 60 ''key'' ?fn ?w0)))"
    by (rule F [THEN conjunct2, THEN conjunct1])
  have "backend (snd (lookupWithCache ToBoolean MemoryCache 60 ''key'' ?fn ?w0))
          = snd (cache_set MemoryCache ''key'' (JString ''fresh'') 60 [''key'' \<mapsto> JNumber 0])"
    by (rule F [THEN conjunct2, THEN conjunct2, THEN conjunct1, THEN spec, THEN mp, OF refl])
  then have 3: "backend (snd (lookupWithCache ToBoolean MemoryCache 60 ''key'' ?fn ?w0)) ''key''
          = Some (JString ''fresh'')"
    by (simp add: MemoryCache_def)
  have 4: "lookupWithCache ToBoolean MemoryCache 60 ''key'' ?fn ?w1 = (Inr (JString ''cached''), ?w1)"
    using H by simp
  from 1 3 2 4 show ?thesis by (intro conjI)
qed

end
